theory Spec2Isabelle
  imports Complex_Main "HOL-Library.AList"
begin

section \<open>Tabular data as pandas holds it\<close>

text \<open>
  A cell of a data frame is a number, a string or the missing value NaN. Numbers are
  idealised as reals: rounding of 64-bit floats is outside this development.
  A row associates column names with cells; a column that a row does not mention reads as
  NaN, which is how \<^verbatim>\<open>pd.concat\<close> fills the columns a frame lacks.
  A frame keeps its column names in order besides its rows, since an empty frame may
  still have columns.
\<close>

datatype cell = Num real | Str string | NaN

type_synonym row = "(string \<times> cell) list"

record frame =
  columns :: "string list"
  rows :: "row list"

datatype error =
    KeyError cell
  | IndexError
  | TypeError
  | AttributeError
  | ParserError
  | CalledProcessError int
  | FileNotFoundError string
  | FileExistsError string
  | NotADirectoryError string
  | IsADirectoryError string
  | OSError
  | BrokenPipeError

definition cell_at :: "row \<Rightarrow> string \<Rightarrow> cell" where
  "cell_at r c = (case map_of r c of Some v \<Rightarrow> v | None \<Rightarrow> NaN)"

definition set_cell :: "string \<Rightarrow> cell \<Rightarrow> row \<Rightarrow> row" where
  "set_cell c v r = AList.update c v r"

text \<open>\<^verbatim>\<open>pd.DataFrame()\<close>: no columns, no rows.\<close>

definition empty_frame :: frame where
  "empty_frame = \<lparr>columns = [], rows = []\<rparr>"

text \<open>\<^verbatim>\<open>df.empty\<close>: some axis has length 0.\<close>

definition is_empty :: "frame \<Rightarrow> bool" where
  "is_empty df = (columns df = [] \<or> rows df = [])"

text \<open>\<^verbatim>\<open>df[c] = v\<close> for a scalar \<open>v\<close>: the column is overwritten in place, or added last.\<close>

definition add_column :: "string \<Rightarrow> string list \<Rightarrow> string list" where
  "add_column c cs = (if c \<in> set cs then cs else cs @ [c])"

definition set_col :: "string \<Rightarrow> cell \<Rightarrow> frame \<Rightarrow> frame" where
  "set_col c v df = \<lparr>columns = add_column c (columns df), rows = map (set_cell c v) (rows df)\<rparr>"

text \<open>\<^verbatim>\<open>df[c] = list(range(len(df)))\<close>: row \<open>i\<close> gets the number \<open>i\<close>.\<close>

definition set_col_range :: "string \<Rightarrow> frame \<Rightarrow> frame" where
  "set_col_range c df =
     \<lparr>columns = add_column c (columns df),
      rows = map (\<lambda>(i, r). set_cell c (Num (real i)) r) (zip [0..<length (rows df)] (rows df))\<rparr>"

text \<open>
  \<^verbatim>\<open>pd.concat(frames, ignore_index=True)\<close>: the rows in order, under the union of the
  columns in order of first appearance (\<^verbatim>\<open>pd.read_csv\<close> renames repeated header names, so
  the columns of one frame are distinct).
\<close>

definition union_columns :: "string list \<Rightarrow> string list \<Rightarrow> string list" where
  "union_columns acc cs = acc @ filter (\<lambda>c. c \<notin> set acc) cs"

definition concat_frames :: "frame list \<Rightarrow> frame" where
  "concat_frames fs =
     \<lparr>columns = foldl union_columns [] (map columns fs),
      rows = concat (map rows fs)\<rparr>"

section \<open>The run descriptor catalog of final\_analysis.py\<close>

record profile =
  name :: string
  latency :: nat
  dl_trace :: string
  ul_trace :: string

definition CC_ALGOS :: "string list" where
  "CC_ALGOS = [''cubic'', ''fillp_sheep'', ''vegas'']"

text \<open>A Python dict iterates in insertion order, so the table is an association list.\<close>

definition NET_PROFILES :: "(string \<times> profile) list" where
  "NET_PROFILES =
     [(''1'', \<lparr>name = ''LTE (Low Latency)'', latency = 5,
              dl_trace = ''mahimahi/traces/TMobile-LTE-driving.down'',
              ul_trace = ''mahimahi/traces/TMobile-LTE-driving.up''\<rparr>),
      (''2'', \<lparr>name = ''LTE (High Latency)'', latency = 200,
              dl_trace = ''mahimahi/traces/TMobile-LTE-short.down'',
              ul_trace = ''mahimahi/traces/TMobile-LTE-short.up''\<rparr>)]"

section \<open>Files\<close>

text \<open>
  An entry of the file system has a modification time and a body: it is a directory, or
  a regular file. What \<^verbatim>\<open>pd.read_csv\<close> makes of a regular file is part of the file:
  either the frame it parses to, or nothing (the parser raises).
  The file system is an association list from paths to entries in the order in which the
  operating system enumerates them. Permissions, links and full disks are not modelled.
\<close>

datatype body = Csv frame | Unparseable | Directory

record disk_file =
  mtime :: nat
  body :: body

type_synonym path = string

type_synonym fsys = "(path \<times> disk_file) list"

text \<open>\<^verbatim>\<open>os.path.isfile\<close> and \<^verbatim>\<open>os.path.isdir\<close>\<close>

definition isfile :: "fsys \<Rightarrow> path \<Rightarrow> bool" where
  "isfile fs p = (case map_of fs p of Some f \<Rightarrow> body f \<noteq> Directory | None \<Rightarrow> False)"

definition isdir :: "fsys \<Rightarrow> path \<Rightarrow> bool" where
  "isdir fs p = (case map_of fs p of Some f \<Rightarrow> body f = Directory | None \<Rightarrow> False)"

definition read_csv :: "fsys \<Rightarrow> path \<Rightarrow> error + frame" where
  "read_csv fs p =
     (case map_of fs p of
        None \<Rightarrow> Inl (FileNotFoundError p)
      | Some f \<Rightarrow>
          (case body f of
             Csv df \<Rightarrow> Inr df
           | Unparseable \<Rightarrow> Inl ParserError
           | Directory \<Rightarrow> Inl (IsADirectoryError p)))"

section \<open>The Aggregator: collect\_dataframes\<close>

definition log_file_of :: "string \<Rightarrow> string \<Rightarrow> path" where
  "log_file_of prof_id algo =
     ''results/profile_'' @ prof_id @ ''/'' @ algo @ ''/'' @ algo @ ''_cc_log.csv''"

text \<open>Lines 84 to 88: the five assignments, in the order of the source.\<close>

definition tag_frame :: "string \<Rightarrow> string \<Rightarrow> profile \<Rightarrow> frame \<Rightarrow> frame" where
  "tag_frame algo prof_id prof_config df =
     set_col_range ''timestamp''
       (set_col ''latency'' (Num (real (latency prof_config)))
         (set_col ''profile_name'' (Str (name prof_config))
           (set_col ''profile'' (Str prof_id)
             (set_col ''scheme'' (Str algo) df))))"

text \<open>
  The body of the inner loop. Whatever the \<^verbatim>\<open>try\<close> block raises is caught and the pair
  contributes nothing; a missing file contributes nothing either (the two messages
  printed are not modelled).
\<close>

definition collect_one :: "fsys \<Rightarrow> string \<Rightarrow> profile \<Rightarrow> frame list \<Rightarrow> string \<Rightarrow> frame list" where
  "collect_one fs prof_id prof_config frames algo =
     (let log_file = log_file_of prof_id algo in
      if isfile fs log_file then
        (case read_csv fs log_file of
           Inr df \<Rightarrow> frames @ [tag_frame algo prof_id prof_config df]
         | Inl e \<Rightarrow> frames)
      else frames)"

definition collect_frames :: "fsys \<Rightarrow> (string \<times> profile) list \<Rightarrow> string list \<Rightarrow> frame list" where
  "collect_frames fs profiles algos =
     foldl (\<lambda>frames (prof_id, prof_config). foldl (collect_one fs prof_id prof_config) frames algos)
       [] profiles"

definition collect_dataframes :: "fsys \<Rightarrow> frame" where
  "collect_dataframes fs =
     (let frames = collect_frames fs NET_PROFILES CC_ALGOS in
      if frames \<noteq> [] then concat_frames frames else empty_frame)"

section \<open>The Derived-Statistics Generator: summarize\_rtt and generate\_comparison\_table\<close>

subsection \<open>Raising and sequencing\<close>

definition bind_err :: "error + 'a \<Rightarrow> ('a \<Rightarrow> error + 'b) \<Rightarrow> error + 'b" where
  "bind_err m f = (case m of Inl e \<Rightarrow> Inl e | Inr x \<Rightarrow> f x)"

text \<open>A \<^verbatim>\<open>for\<close> loop whose body may raise: the first exception leaves the loop.\<close>

fun for_each :: "('a \<Rightarrow> 's \<Rightarrow> 'e + 's) \<Rightarrow> 'a list \<Rightarrow> 's \<Rightarrow> 'e + 's" where
  "for_each f [] s = Inr s"
| "for_each f (x # xs) s = (case f x s of Inl e \<Rightarrow> Inl e | Inr s' \<Rightarrow> for_each f xs s')"

subsection \<open>Column access, selection\<close>

text \<open>\<^verbatim>\<open>data[c]\<close> raises KeyError when the frame has no column \<open>c\<close>.\<close>

definition get_col :: "frame \<Rightarrow> string \<Rightarrow> error + cell list" where
  "get_col df c =
     (if c \<in> set (columns df) then Inr (map (\<lambda>r. cell_at r c) (rows df))
      else Inl (KeyError (Str c)))"

text \<open>\<^verbatim>\<open>Series.unique()\<close>: the distinct values in order of first appearance.\<close>

definition unique :: "'a list \<Rightarrow> 'a list" where
  "unique xs = rev (remdups (rev xs))"

text \<open>The elementwise \<^verbatim>\<open>==\<close> of a column with a value: NaN equals nothing.\<close>

definition cell_eq :: "cell \<Rightarrow> cell \<Rightarrow> bool" where
  "cell_eq a b = (a = b \<and> a \<noteq> NaN)"

text \<open>\<^verbatim>\<open>data[(data['scheme'] == algo) & (data['profile'] == prof_id)]\<close>\<close>

definition select_run :: "frame \<Rightarrow> cell \<Rightarrow> cell \<Rightarrow> error + frame" where
  "select_run data algo prof_id =
     (if ''scheme'' \<notin> set (columns data) then Inl (KeyError (Str ''scheme''))
      else if ''profile'' \<notin> set (columns data) then Inl (KeyError (Str ''profile''))
      else Inr (data\<lparr>rows := filter (\<lambda>r. cell_eq (cell_at r ''scheme'') algo
                                          \<and> cell_eq (cell_at r ''profile'') prof_id) (rows data)\<rparr>))"

text \<open>\<^verbatim>\<open>data[data['profile'] == prof_id]['profile_name'].iloc[0]\<close>\<close>

definition first_profile_name :: "frame \<Rightarrow> cell \<Rightarrow> error + cell" where
  "first_profile_name data prof_id =
     (if ''profile'' \<notin> set (columns data) then Inl (KeyError (Str ''profile''))
      else if ''profile_name'' \<notin> set (columns data) then Inl (KeyError (Str ''profile_name''))
      else (case filter (\<lambda>r. cell_eq (cell_at r ''profile'') prof_id) (rows data) of
              [] \<Rightarrow> Inl IndexError
            | r # _ \<Rightarrow> Inr (cell_at r ''profile_name'')))"

text \<open>\<^verbatim>\<open>NET_PROFILES[prof_id]\<close>\<close>

definition lookup_profile :: "cell \<Rightarrow> error + profile" where
  "lookup_profile prof_id =
     (case prof_id of
        Str s \<Rightarrow> (case map_of NET_PROFILES s of Some p \<Rightarrow> Inr p | None \<Rightarrow> Inl (KeyError prof_id))
      | _ \<Rightarrow> Inl (KeyError prof_id))"

text \<open>\<^verbatim>\<open>algo.upper()\<close>, on ASCII letters; a value that is no string has no such method.\<close>

definition upper_char :: "char \<Rightarrow> char" where
  "upper_char c =
     (case map_of (zip ''abcdefghijklmnopqrstuvwxyz'' ''ABCDEFGHIJKLMNOPQRSTUVWXYZ'') c of
        Some C \<Rightarrow> C
      | None \<Rightarrow> c)"

definition upper :: "cell \<Rightarrow> error + string" where
  "upper algo = (case algo of Str s \<Rightarrow> Inr (map upper_char s) | _ \<Rightarrow> Inl AttributeError)"

subsection \<open>Statistics of a column\<close>

text \<open>
  A reduction of a column that holds a string raises TypeError; otherwise the column is
  numbers and NaN (\<open>None\<close>), and pandas reduces over the numbers only (\<^verbatim>\<open>skipna\<close>).
\<close>

fun is_str :: "cell \<Rightarrow> bool" where
  "is_str (Str s) = True"
| "is_str c = False"

fun to_number :: "cell \<Rightarrow> real option" where
  "to_number (Num x) = Some x"
| "to_number c = None"

definition numeric :: "cell list \<Rightarrow> error + real option list" where
  "numeric cs = (if list_ex is_str cs then Inl TypeError else Inr (map to_number cs))"

fun dropna :: "real option list \<Rightarrow> real list" where
  "dropna [] = []"
| "dropna (None # xs) = dropna xs"
| "dropna (Some x # xs) = x # dropna xs"

definition mean :: "real list \<Rightarrow> cell" where
  "mean xs = (if xs = [] then NaN else Num (sum_list xs / real (length xs)))"

definition minimum :: "real list \<Rightarrow> cell" where
  "minimum xs = (case xs of [] \<Rightarrow> NaN | x # rest \<Rightarrow> Num (fold min rest x))"

definition maximum :: "real list \<Rightarrow> cell" where
  "maximum xs = (case xs of [] \<Rightarrow> NaN | x # rest \<Rightarrow> Num (fold max rest x))"

definition median :: "real list \<Rightarrow> cell" where
  "median xs =
     (let s = sort xs; n = length s in
      if n = 0 then NaN
      else if odd n then Num (s ! (n div 2))
      else Num ((s ! (n div 2 - 1) + s ! (n div 2)) / 2))"

text \<open>\<^verbatim>\<open>Series.std()\<close>: the sample standard deviation (\<^verbatim>\<open>ddof=1\<close>), NaN below two values.\<close>

definition std :: "real list \<Rightarrow> cell" where
  "std xs =
     (let n = length xs in
      if n < 2 then NaN
      else let m = sum_list xs / real n in
           Num (sqrt (sum_list (map (\<lambda>x. (x - m)\<^sup>2) xs) / real (n - 1))))"

text \<open>\<^verbatim>\<open>Series.quantile(q)\<close>: linear interpolation between the two nearest ranks.\<close>

definition quantile :: "real \<Rightarrow> real list \<Rightarrow> cell" where
  "quantile q xs =
     (let s = sort xs; n = length s in
      if n = 0 then NaN
      else let pos = q * real (n - 1);
               lo = nat \<lfloor>pos\<rfloor>;
               hi = min (lo + 1) (n - 1)
           in Num (s ! lo + (s ! hi - s ! lo) * (pos - real lo)))"

text \<open>
  \<^verbatim>\<open>Series.diff()\<close>: each value minus its predecessor; NaN in the first place and
  wherever one of the two is NaN.
\<close>

fun minus_opt :: "real option \<Rightarrow> real option \<Rightarrow> real option" where
  "minus_opt (Some y) (Some x) = Some (y - x)"
| "minus_opt a b = None"

definition diff :: "real option list \<Rightarrow> real option list" where
  "diff xs = (case xs of [] \<Rightarrow> [] | _ # rest \<Rightarrow> None # map2 minus_opt rest xs)"

text \<open>\<^verbatim>\<open>subdata['rtt'].diff().abs().mean()\<close>\<close>

definition jitter :: "real option list \<Rightarrow> cell" where
  "jitter xs = mean (dropna (map (map_option abs) (diff xs)))"

text \<open>\<^verbatim>\<open>x * 100\<close> on the result of a reduction.\<close>

fun times100 :: "cell \<Rightarrow> cell" where
  "times100 (Num x) = Num (x * 100)"
| "times100 c = NaN"

subsection \<open>summarize\_rtt\<close>

record rtt_stats =
  rtt_Algorithm :: string
  rtt_Profile :: cell
  rtt_Latency :: nat
  rtt_Avg :: cell
  rtt_Min :: cell
  rtt_Max :: cell
  rtt_Median :: cell
  rtt_Std_Dev :: cell
  rtt_95th :: cell
  rtt_Jitter :: cell

text \<open>
  The body of the inner loop. The dictionary is built entry by entry, so the first entry
  that raises decides the exception: \<^verbatim>\<open>algo.upper()\<close>, then the profile lookup, then
  the first reduction of the column (the later reductions read the same column).
\<close>

definition summarize_group ::
  "frame \<Rightarrow> cell \<Rightarrow> cell \<Rightarrow> cell \<Rightarrow> rtt_stats list \<Rightarrow> error + rtt_stats list" where
  "summarize_group data prof_id prof_name algo rtt_records =
     bind_err (select_run data algo prof_id) (\<lambda>subdata.
       if \<not> is_empty subdata \<and> ''rtt'' \<in> set (columns subdata) then
         bind_err (upper algo) (\<lambda>algo_upper.
         bind_err (lookup_profile prof_id) (\<lambda>prof_config.
         bind_err (get_col subdata ''rtt'') (\<lambda>col.
         bind_err (numeric col) (\<lambda>rtt.
           Inr (rtt_records @
             [\<lparr>rtt_Algorithm = algo_upper,
               rtt_Profile = prof_name,
               rtt_Latency = latency prof_config,
               rtt_Avg = mean (dropna rtt),
               rtt_Min = minimum (dropna rtt),
               rtt_Max = maximum (dropna rtt),
               rtt_Median = median (dropna rtt),
               rtt_Std_Dev = std (dropna rtt),
               rtt_95th = quantile (95 / 100) (dropna rtt),
               rtt_Jitter = jitter rtt\<rparr>])))))
       else Inr rtt_records)"

definition summarize_profile :: "frame \<Rightarrow> cell \<Rightarrow> rtt_stats list \<Rightarrow> error + rtt_stats list" where
  "summarize_profile data prof_id rtt_records =
     bind_err (first_profile_name data prof_id) (\<lambda>prof_name.
     bind_err (get_col data ''scheme'') (\<lambda>schemes.
       for_each (summarize_group data prof_id prof_name) (unique schemes) rtt_records))"

text \<open>
  The result is the list of records; when it is not empty the source writes it to
  \<^verbatim>\<open>graphs/rtt_summary.csv\<close> and prints it, otherwise it prints the warning
  \<^verbatim>\<open>No RTT data available for summary\<close>.
\<close>

definition summarize_rtt :: "frame \<Rightarrow> error + rtt_stats list" where
  "summarize_rtt data =
     bind_err (get_col data ''profile'') (\<lambda>profiles.
       for_each (summarize_profile data) (unique profiles) [])"

subsection \<open>generate\_comparison\_table\<close>

record comparison =
  cmp_Profile :: string
  cmp_Algorithm :: string
  cmp_Avg_Throughput :: cell
  cmp_Throughput_Std_Dev :: cell
  cmp_Avg_RTT :: cell
  cmp_Avg_Loss_Rate :: cell
  cmp_90_Throughput :: cell

text \<open>
  Line 269: the loss rate is read when the selection has a column of that name, which it
  has whenever the whole frame has one; otherwise the entry is 0.
\<close>

definition avg_loss_rate :: "frame \<Rightarrow> error + cell" where
  "avg_loss_rate subdata =
     (if ''loss_rate'' \<in> set (columns subdata) then
        bind_err (get_col subdata ''loss_rate'') (\<lambda>col.
        bind_err (numeric col) (\<lambda>loss. Inr (times100 (mean (dropna loss)))))
      else Inr (Num 0))"

definition compare_group ::
  "frame \<Rightarrow> cell \<Rightarrow> cell \<Rightarrow> comparison list \<Rightarrow> error + comparison list" where
  "compare_group data prof_id algo comparison_records =
     bind_err (select_run data algo prof_id) (\<lambda>subdata.
       if \<not> is_empty subdata then
         bind_err (lookup_profile prof_id) (\<lambda>prof_config.
         bind_err (upper algo) (\<lambda>algo_upper.
         bind_err (get_col subdata ''throughput'') (\<lambda>tcol.
         bind_err (numeric tcol) (\<lambda>throughput.
         bind_err (get_col subdata ''rtt'') (\<lambda>rcol.
         bind_err (numeric rcol) (\<lambda>rtt.
         bind_err (avg_loss_rate subdata) (\<lambda>loss.
           Inr (comparison_records @
             [\<lparr>cmp_Profile = name prof_config,
               cmp_Algorithm = algo_upper,
               cmp_Avg_Throughput = mean (dropna throughput),
               cmp_Throughput_Std_Dev = std (dropna throughput),
               cmp_Avg_RTT = mean (dropna rtt),
               cmp_Avg_Loss_Rate = loss,
               cmp_90_Throughput = quantile (9 / 10) (dropna throughput)\<rparr>]))))))))
       else Inr comparison_records)"

definition compare_profile :: "frame \<Rightarrow> cell \<Rightarrow> comparison list \<Rightarrow> error + comparison list" where
  "compare_profile data prof_id comparison_records =
     bind_err (get_col data ''scheme'') (\<lambda>schemes.
       for_each (compare_group data prof_id) (unique schemes) comparison_records)"

text \<open>
  As above: a non-empty result is written to \<^verbatim>\<open>graphs/algorithm_comparison.csv\<close>, an
  empty one gives the warning \<^verbatim>\<open>No data available for comparison table\<close>.
\<close>

definition generate_comparison_table :: "frame \<Rightarrow> error + comparison list" where
  "generate_comparison_table data =
     bind_err (get_col data ''profile'') (\<lambda>profiles.
       for_each (compare_profile data) (unique profiles) [])"

section \<open>The Test Runner: execute\_tests\<close>

text \<open>
  The world of the runner is the file system and a clock. The emulation command is not
  part of the repository: it is a parameter \<open>sh\<close> that maps the command line and the
  world to an exit status and a new world (it writes the log file and, into
  \<^verbatim>\<open>logs/\<close>, whatever the scheme produces).
\<close>

record world =
  files :: fsys
  clock :: nat

type_synonym shell = "string \<Rightarrow> world \<Rightarrow> int \<times> world"

text \<open>What the runner does that can be observed: the lines it prints and the commands it runs.\<close>

datatype event =
    Running_profile string
  | Testing string
  | Invoked string
  | Test_completed string string
  | Test_failed string string int
  | Metrics_saved string string
  | No_metrics_found string string

definition digit_char :: "nat \<Rightarrow> char" where
  "digit_char d = ''0123456789'' ! d"

fun str_nat :: "nat \<Rightarrow> string" where
  "str_nat n = (if n < 10 then [digit_char n] else str_nat (n div 10) @ [digit_char (n mod 10)])"

definition result_path_of :: "string \<Rightarrow> string \<Rightarrow> path" where
  "result_path_of prof_id algo = ''results/profile_'' @ prof_id @ ''/'' @ algo"

definition test_command :: "profile \<Rightarrow> string \<Rightarrow> path \<Rightarrow> string" where
  "test_command prof_config algo result_path =
     ''mm-delay '' @ str_nat (latency prof_config) @ '' '' @
     ''mm-link '' @ dl_trace prof_config @ '' '' @ ul_trace prof_config @ '' -- '' @
     ''bash -c '' @ [CHR 0x27] @ ''python3 tests/test_schemes.py --schemes '' @
     [CHR 0x22] @ algo @ [CHR 0x22] @ '' > '' @ result_path @ ''/log.txt 2>&1'' @ [CHR 0x27]"

text \<open>
  \<^verbatim>\<open>glob.glob(f"logs/metrics_{algo}_*.csv")\<close>: the paths, in the order of enumeration,
  that start with \<^verbatim>\<open>logs/metrics_<algo>_\<close>, end in \<^verbatim>\<open>.csv\<close> and have no further
  \<^verbatim>\<open>/\<close> in between.
\<close>

definition glob_match :: "string \<Rightarrow> path \<Rightarrow> bool" where
  "glob_match algo p =
     (let pre = ''logs/metrics_'' @ algo @ ''_''; rest = drop (length pre) p in
      take (length pre) p = pre \<and> 4 \<le> length rest
      \<and> drop (length rest - 4) rest = ''.csv''
      \<and> CHR ''/'' \<notin> set (take (length rest - 4) rest))"

definition glob :: "fsys \<Rightarrow> string \<Rightarrow> path list" where
  "glob fs algo = filter (glob_match algo) (map fst fs)"

text \<open>
  The directories above a path, outermost first: of \<^verbatim>\<open>results/profile_1/cubic\<close> these
  are \<^verbatim>\<open>results\<close> and \<^verbatim>\<open>results/profile_1\<close>.
\<close>

fun walk :: "string \<Rightarrow> string \<Rightarrow> path list" where
  "walk seen [] = []"
| "walk seen (c # cs) =
     (if c = CHR ''/'' \<and> seen \<noteq> [] then [seen] else []) @ walk (seen @ [c]) cs"

definition ancestors :: "path \<Rightarrow> path list" where
  "ancestors p = walk [] p"

definition parent :: "path \<Rightarrow> path option" where
  "parent p = (case ancestors p of [] \<Rightarrow> None | ds \<Rightarrow> Some (last ds))"

definition basename :: "path \<Rightarrow> string" where
  "basename p = rev (takeWhile (\<lambda>c. c \<noteq> CHR ''/'') (rev p))"

text \<open>
  \<^verbatim>\<open>os.makedirs(p, exist_ok=True)\<close> goes down the chain of directories that ends in
  \<open>p\<close> and creates what is missing. A regular file in the way makes it raise:
  FileExistsError when the file is \<open>p\<close> itself, NotADirectoryError for the
  directory that was to be made below the file. A failure is reported with the world
  as it then is.
\<close>

definition add_dir :: "path \<Rightarrow> world \<Rightarrow> world" where
  "add_dir d w =
     (if isdir (files w) d then w
      else w\<lparr>files := AList.update d \<lparr>mtime = clock w, body = Directory\<rparr> (files w)\<rparr>)"

fun make_chain :: "path list \<Rightarrow> world \<Rightarrow> (error \<times> world) + world" where
  "make_chain [] w = Inr w"
| "make_chain [d] w =
     (if isfile (files w) d then Inl (FileExistsError d, w) else Inr (add_dir d w))"
| "make_chain (d # d' # ds) w =
     (if isfile (files w) d then Inl (NotADirectoryError d', w)
      else make_chain (d' # ds) (add_dir d w))"

definition makedirs :: "path \<Rightarrow> world \<Rightarrow> (error \<times> world) + world" where
  "makedirs p w = make_chain (ancestors p @ [p]) w"

text \<open>\<^verbatim>\<open>os.path.getmtime\<close> raises for a path that is not there.\<close>

definition getmtime :: "fsys \<Rightarrow> path \<Rightarrow> error + nat" where
  "getmtime fs p = (case map_of fs p of Some f \<Rightarrow> Inr (mtime f) | None \<Rightarrow> Inl (FileNotFoundError p))"

text \<open>
  \<^verbatim>\<open>sorted(xs, key=k, reverse=True)\<close> computes the key of every element first, in the
  order of the list, and the first key that raises ends the call. The sort is stable:
  Python reverses, sorts stably in ascending order and reverses again.
\<close>

fun map_err :: "('a \<Rightarrow> error + 'b) \<Rightarrow> 'a list \<Rightarrow> error + 'b list" where
  "map_err f [] = Inr []"
| "map_err f (x # xs) =
     (case f x of
        Inl e \<Rightarrow> Inl e
      | Inr y \<Rightarrow> (case map_err f xs of Inl e \<Rightarrow> Inl e | Inr ys \<Rightarrow> Inr (y # ys)))"

definition sorted_reverse :: "('a \<Rightarrow> nat) \<Rightarrow> 'a list \<Rightarrow> 'a list" where
  "sorted_reverse k xs = rev (sort_key k (rev xs))"

definition sorted_by_mtime :: "fsys \<Rightarrow> path list \<Rightarrow> error + path list" where
  "sorted_by_mtime fs paths =
     (case map_err (getmtime fs) paths of
        Inl e \<Rightarrow> Inl e
      | Inr stamps \<Rightarrow> Inr (map fst (sorted_reverse snd (zip paths stamps))))"

text \<open>
  \<^verbatim>\<open>shutil.copy(src, dst)\<close> opens \<open>src\<close> and then the target for writing; the
  target is \<open>dst\<close>, or the name of \<open>src\<close> inside \<open>dst\<close> when \<open>dst\<close> is a
  directory. It raises when \<open>src\<close> is missing or a directory, when the target is a
  directory, and when the directory of the target is missing or a regular file. Otherwise
  the target holds the body of \<open>src\<close>, modified now.
\<close>

definition write_file :: "path \<Rightarrow> body \<Rightarrow> world \<Rightarrow> world" where
  "write_file target b w = w\<lparr>files := AList.update target \<lparr>mtime = clock w, body = b\<rparr> (files w)\<rparr>"

definition copy :: "path \<Rightarrow> path \<Rightarrow> world \<Rightarrow> error + world" where
  "copy src dst w =
     (case map_of (files w) src of
        None \<Rightarrow> Inl (FileNotFoundError src)
      | Some f \<Rightarrow>
          if body f = Directory then Inl (IsADirectoryError src)
          else
            (let target = (if isdir (files w) dst then dst @ ''/'' @ basename src else dst) in
             if isdir (files w) target then Inl (IsADirectoryError target)
             else
               (case parent target of
                  None \<Rightarrow> Inr (write_file target (body f) w)
                | Some d \<Rightarrow>
                    if isdir (files w) d then Inr (write_file target (body f) w)
                    else if isfile (files w) d then Inl (NotADirectoryError target)
                    else Inl (FileNotFoundError target))))"

text \<open>
  The body of the inner loop (lines 48 to 73), on the world and the output so far. A
  non-zero exit status makes \<^verbatim>\<open>subprocess.run(..., check=True)\<close> raise
  CalledProcessError, which is caught: the pair is given up with \<^verbatim>\<open>continue\<close>. Nothing
  else is caught: what \<^verbatim>\<open>os.makedirs\<close>, \<^verbatim>\<open>os.path.getmtime\<close> and \<^verbatim>\<open>shutil.copy\<close>
  raise leaves the loops, here as \<open>Inl\<close> of the exception and the state it left.
\<close>

type_synonym run_state = "world \<times> event list"

definition run_pair ::
  "shell \<Rightarrow> string \<Rightarrow> profile \<Rightarrow> string \<Rightarrow> run_state \<Rightarrow> (error \<times> run_state) + run_state" where
  "run_pair sh prof_id prof_config algo st =
     (let (w, out) = st;
          out0 = out @ [Testing algo];
          result_path = result_path_of prof_id algo
      in case makedirs result_path w of
           Inl (e, w') \<Rightarrow> Inl (e, (w', out0))
         | Inr w0 \<Rightarrow>
             (let cmd = test_command prof_config algo result_path;
                  (status, w1) = sh cmd w0;
                  out1 = out0 @ [Invoked cmd]
              in if status \<noteq> 0 then Inr (w1, out1 @ [Test_failed algo prof_id status])
                 else
                   (let out2 = out1 @ [Test_completed algo prof_id] in
                    case sorted_by_mtime (files w1) (glob (files w1) algo) of
                      Inl e \<Rightarrow> Inl (e, (w1, out2))
                    | Inr [] \<Rightarrow> Inr (w1, out2 @ [No_metrics_found algo prof_id])
                    | Inr (newest_log # _) \<Rightarrow>
                        (case copy newest_log (result_path @ ''/'' @ algo @ ''_cc_log.csv'') w1 of
                           Inl e \<Rightarrow> Inl (e, (w1, out2))
                         | Inr w2 \<Rightarrow> Inr (w2, out2 @ [Metrics_saved algo prof_id])))))"

definition run_profile ::
  "shell \<Rightarrow> string list \<Rightarrow> string \<times> profile \<Rightarrow> run_state \<Rightarrow> (error \<times> run_state) + run_state" where
  "run_profile sh algos = (\<lambda>(prof_id, prof_config) st.
     for_each (run_pair sh prof_id prof_config) algos (fst st, snd st @ [Running_profile prof_id]))"

definition run_tests ::
  "shell \<Rightarrow> (string \<times> profile) list \<Rightarrow> string list \<Rightarrow> world \<Rightarrow> (error \<times> run_state) + run_state" where
  "run_tests sh profiles algos w = for_each (run_profile sh algos) profiles (w, [])"

definition execute_tests :: "shell \<Rightarrow> world \<Rightarrow> (error \<times> run_state) + run_state" where
  "execute_tests sh w = run_tests sh NET_PROFILES CC_ALGOS w"

section \<open>The pipeline: orchestrate\<close>

text \<open>
  Drawing is left to matplotlib; the four drawing functions are parameters that may raise.
  The pipeline returns early on an empty frame (line 295), before any of them is called.
\<close>

record drawing =
  draw_throughput_plot :: "frame \<Rightarrow> error + unit"
  draw_loss_plot :: "frame \<Rightarrow> error + unit"
  draw_throughput_cdf :: "frame \<Rightarrow> error + unit"
  scatter_rtt_vs_throughput :: "frame \<Rightarrow> error + unit"

datatype report = No_data_collected | Analysed "rtt_stats list" "comparison list"

definition analyse :: "drawing \<Rightarrow> frame \<Rightarrow> error + report" where
  "analyse d full_df =
     bind_err (draw_throughput_plot d full_df) (\<lambda>_.
     bind_err (draw_loss_plot d full_df) (\<lambda>_.
     bind_err (draw_throughput_cdf d full_df) (\<lambda>_.
     bind_err (summarize_rtt full_df) (\<lambda>rtt_records.
     bind_err (scatter_rtt_vs_throughput d full_df) (\<lambda>_.
     bind_err (generate_comparison_table full_df) (\<lambda>comparison_records.
       Inr (Analysed rtt_records comparison_records)))))))"

text \<open>An exception that leaves a stage of the pipeline, without the state it left.\<close>

definition raised :: "(error \<times> 's) + 'a \<Rightarrow> error + 'a" where
  "raised r = (case r of Inl (e, s) \<Rightarrow> Inl e | Inr x \<Rightarrow> Inr x)"

text \<open>Lines 288 to 291: the two directories are made, then the tests are run.\<close>

definition setup_and_tests :: "shell \<Rightarrow> world \<Rightarrow> error + run_state" where
  "setup_and_tests sh w =
     bind_err (raised (makedirs ''graphs'' w)) (\<lambda>w.
     bind_err (raised (makedirs ''results'' w)) (\<lambda>w.
       raised (execute_tests sh w)))"

definition orchestrate :: "shell \<Rightarrow> drawing \<Rightarrow> world \<Rightarrow> error + report" where
  "orchestrate sh d w =
     bind_err (setup_and_tests sh w) (\<lambda>(w1, out).
       let full_df = collect_dataframes (files w1)
       in if is_empty full_df then Inr No_data_collected else analyse d full_df)"

section \<open>The Metrics Sampler: collect\_metrics of ledbat.py\<close>

record sample =
  timestamp :: real
  throughput :: real
  rtt :: real
  loss_rate :: real
  queuing_delay :: real

text \<open>
  Time and chance come from outside. The clock is read in nanoseconds since
  \<^verbatim>\<open>start_time\<close>; pass \<open>i\<close> of the loop meets the environment \<open>env i\<close>: the time that
  goes by before the loop test reads the clock, the time between that reading and the
  one taken for the timestamp, the time by which \<^verbatim>\<open>time.sleep(1)\<close> oversleeps (it never
  sleeps less than asked), and the four results of \<^verbatim>\<open>random.random()\<close>.
  \<^verbatim>\<open>random.uniform(a, b)\<close> is \<^verbatim>\<open>a + (b - a) * random()\<close>.
\<close>

record tick =
  test_lag :: nat
  stamp_lag :: nat
  oversleep :: nat
  u_throughput :: real
  u_rtt :: real
  u_loss_rate :: real
  u_queuing_delay :: real

definition second :: nat where
  "second = 1000000000"

definition uniform :: "real \<Rightarrow> real \<Rightarrow> real \<Rightarrow> real" where
  "uniform a b u = a + (b - a) * u"

definition seconds :: "nat \<Rightarrow> real" where
  "seconds t = real t / real second"

definition take_sample :: "tick \<Rightarrow> nat \<Rightarrow> sample" where
  "take_sample e t =
     \<lparr>timestamp = seconds t,
      throughput = uniform 1 10 (u_throughput e),
      rtt = uniform 100 300 (u_rtt e),
      loss_rate = uniform 0 (2 / 100) (u_loss_rate e),
      queuing_delay = uniform 0 50 (u_queuing_delay e)\<rparr>"

text \<open>
  The loop of lines 19 to 28: \<open>i\<close> counts the passes, \<open>t\<close> is the time since
  \<^verbatim>\<open>start_time\<close> at which the pass begins, \<open>duration\<close> is in seconds.
\<close>

function sample_loop :: "(nat \<Rightarrow> tick) \<Rightarrow> int \<Rightarrow> nat \<Rightarrow> nat \<Rightarrow> sample list \<Rightarrow> sample list" where
  "sample_loop env duration i t metrics =
     (let tested = t + test_lag (env i) in
      if int tested < duration * int second then
        let stamped = tested + stamp_lag (env i) in
        sample_loop env duration (Suc i) (stamped + second + oversleep (env i))
          (metrics @ [take_sample (env i) stamped])
      else metrics)"
  by pat_completeness auto
termination
  by (relation "measure (\<lambda>(env, duration, i, t, metrics). nat (duration * int second - int t))")
     (auto simp: second_def)

declare sample_loop.simps [simp del]

text \<open>
  The directories that exist and the series that have been saved. Paths are in normal
  form (no empty and no \<^verbatim>\<open>.\<close> component); the working directory and the root exist.
\<close>

record store =
  dirs :: "path list"
  saved :: "(path \<times> sample list) list"

definition dir_exists :: "store \<Rightarrow> path \<Rightarrow> bool" where
  "dir_exists st d = (d = ''.'' \<or> d = ''/'' \<or> d \<in> set (dirs st))"

definition file_exists :: "store \<Rightarrow> path \<Rightarrow> bool" where
  "file_exists st p = (p \<in> fst ` set (saved st))"

text \<open>
  \<^verbatim>\<open>os.path.dirname\<close>: the path up to its last \<^verbatim>\<open>/\<close>, without trailing slashes unless
  it consists of slashes only.
\<close>

definition is_slash :: "char \<Rightarrow> bool" where
  "is_slash c = (c = CHR ''/'')"

definition dirname :: "path \<Rightarrow> path" where
  "dirname p =
     (let head = rev (dropWhile (\<lambda>c. \<not> is_slash c) (rev p)) in
      if head \<noteq> [] \<and> \<not> list_all is_slash head then rev (dropWhile is_slash (rev head))
      else head)"

text \<open>\<^verbatim>\<open>Path(d)\<close>: the empty path is the working directory.\<close>

definition Path :: "path \<Rightarrow> path" where
  "Path d = (if d = [] then ''.'' else d)"

text \<open>
  \<^verbatim>\<open>Path.mkdir(exist_ok=True)\<close>, without \<^verbatim>\<open>parents=True\<close>: an existing directory is
  accepted, an existing file is not, and a missing parent is not created; a parent that
  is a regular file gives NotADirectoryError.
\<close>

definition mkdir :: "path \<Rightarrow> store \<Rightarrow> error + store" where
  "mkdir d st =
     (if dir_exists st d then Inr st
      else if file_exists st d then Inl (FileExistsError d)
      else if dir_exists st (Path (dirname d)) then Inr (st\<lparr>dirs := dirs st @ [d]\<rparr>)
      else if file_exists st (Path (dirname d)) then Inl (NotADirectoryError d)
      else Inl (FileNotFoundError d))"

text \<open>\<^verbatim>\<open>pd.DataFrame(metrics).to_csv(metrics_file, index=False)\<close>\<close>

definition to_csv :: "sample list \<Rightarrow> path \<Rightarrow> store \<Rightarrow> error + store" where
  "to_csv metrics p st =
     (if dir_exists st p then Inl OSError
      else if dir_exists st (Path (dirname p))
      then Inr (st\<lparr>saved := AList.update p metrics (saved st)\<rparr>)
      else Inl OSError)"

definition collect_metrics :: "(nat \<Rightarrow> tick) \<Rightarrow> path \<Rightarrow> int \<Rightarrow> store \<Rightarrow> error + store" where
  "collect_metrics env metrics_file duration st =
     (let metrics = sample_loop env duration 0 0 [] in
      bind_err (mkdir (Path (dirname metrics_file)) st) (to_csv metrics metrics_file))"

text \<open>The default \<^verbatim>\<open>duration=75\<close>.\<close>

definition collect_metrics_default :: "(nat \<Rightarrow> tick) \<Rightarrow> path \<Rightarrow> store \<Rightarrow> error + store" where
  "collect_metrics_default env metrics_file st = collect_metrics env metrics_file 75 st"

section \<open>The Transfer Lifecycle Manager: main of ledbat.py\<close>

datatype option_arg = Setup | Receiver | Sender | Other_option

text \<open>What \<^verbatim>\<open>main\<close> does to processes, in order.\<close>

datatype action =
    Make
  | Start_metrics
  | Start_transfer
  | Run_transfer
  | Write_chunk
  | Kill_transfer
  | Terminate_metrics

text \<open>
  One pass of the sending loop: the write (or the flush) raises, or it succeeds and the
  deadline has or has not passed when the clock is read.
\<close>

datatype pass = Write_fails | Written_in_time | Written_past_deadline

text \<open>
  The processes as \<^verbatim>\<open>main\<close> meets them. Starting a process may fail, and then the
  call raises (FileNotFoundError for a missing executable, PermissionError, ...): this
  is \<open>Inl\<close> of the exception for \<^verbatim>\<open>make\<close>, \<open>Some\<close> of it for the sampler and for the
  transfer process. Otherwise \<^verbatim>\<open>make\<close> has an exit status; the receiving transfer
  process has one if it exits at all; the sending loop completes some passes, after
  which a further write never returns; and the transfer process still runs, or not,
  when the \<^verbatim>\<open>finally\<close> block polls it.
\<close>

record processes =
  make_result :: "error + int"
  metrics_spawn :: "error option"
  transfer_spawn :: "error option"
  transfer_status :: "int option"
  passes :: "pass list"
  transfer_running :: bool

text \<open>
  The loop of lines 65 to 69. The result is \<open>None\<close> when the loop never ends (a write
  that blocks for ever), otherwise whether it broke out or raised.
\<close>

fun send_loop :: "pass list \<Rightarrow> action list \<Rightarrow> (error + unit) option \<times> action list" where
  "send_loop [] done = (None, done @ [Write_chunk])"
| "send_loop (Write_fails # ps) done = (Some (Inl BrokenPipeError), done @ [Write_chunk])"
| "send_loop (Written_in_time # ps) done = send_loop ps (done @ [Write_chunk])"
| "send_loop (Written_past_deadline # ps) done = (Some (Inr ()), done @ [Write_chunk])"

text \<open>
  \<^verbatim>\<open>check_call\<close> raises CalledProcessError on a non-zero exit status. The result of
  \<^verbatim>\<open>main\<close> is \<open>None\<close> when it does not return, \<open>Some (Inl e)\<close> when it raises \<open>e\<close>
  and \<open>Some (Inr ())\<close> when it returns.
\<close>

definition main :: "option_arg \<Rightarrow> processes \<Rightarrow> (error + unit) option \<times> action list" where
  "main option env =
     (case option of
        Setup \<Rightarrow>
          (case make_result env of
             Inl e \<Rightarrow> (Some (Inl e), [])
           | Inr status \<Rightarrow>
               if status \<noteq> 0 then (Some (Inl (CalledProcessError status)), [Make])
               else (Some (Inr ()), [Make]))
      | Receiver \<Rightarrow>
          (case metrics_spawn env of
             Some e \<Rightarrow> (Some (Inl e), [])
           | None \<Rightarrow>
               (case transfer_spawn env of
                  Some e \<Rightarrow> (Some (Inl e), [Start_metrics])
                | None \<Rightarrow>
                    (case transfer_status env of
                       None \<Rightarrow> (None, [Start_metrics, Run_transfer])
                     | Some status \<Rightarrow>
                         if status \<noteq> 0
                         then (Some (Inl (CalledProcessError status)), [Start_metrics, Run_transfer])
                         else (Some (Inr ()), [Start_metrics, Run_transfer, Terminate_metrics]))))
      | Sender \<Rightarrow>
          (case transfer_spawn env of
             Some e \<Rightarrow> (Some (Inl e), [])
           | None \<Rightarrow>
               (case metrics_spawn env of
                  Some e \<Rightarrow> (Some (Inl e), [Start_transfer])
                | None \<Rightarrow>
                    (case send_loop (passes env) [Start_transfer, Start_metrics] of
                       (None, done) \<Rightarrow> (None, done)
                     | (Some r, done) \<Rightarrow>
                         (Some r, done @ (if transfer_running env then [Kill_transfer] else [])
                                       @ [Terminate_metrics]))))
      | Other_option \<Rightarrow> (Some (Inr ()), []))"

section \<open>Notions used in the statements\<close>

text \<open>
  What one pair of the catalog contributes to the list of frames: the tagged frame of its
  artifact when the file is there and parses, nothing otherwise.
\<close>

definition contribution :: "fsys \<Rightarrow> (string \<times> profile) \<times> string \<Rightarrow> frame list" where
  "contribution fs = (\<lambda>((prof_id, prof_config), algo).
     (case read_csv fs (log_file_of prof_id algo) of
        Inr df \<Rightarrow> [tag_frame algo prof_id prof_config df]
      | Inl e \<Rightarrow> []))"

text \<open>The five assignments of lines 84 to 88 on one row, \<open>i\<close> being its index.\<close>

definition tag_row :: "string \<Rightarrow> string \<Rightarrow> profile \<Rightarrow> nat \<Rightarrow> row \<Rightarrow> row" where
  "tag_row algo prof_id prof_config i r =
     set_cell ''timestamp'' (Num (real i))
       (set_cell ''latency'' (Num (real (latency prof_config)))
         (set_cell ''profile_name'' (Str (name prof_config))
           (set_cell ''profile'' (Str prof_id)
             (set_cell ''scheme'' (Str algo) r))))"

text \<open>A pair of the catalog is identified by the profile id and the scheme.\<close>

definition pair_key :: "(string \<times> profile) \<times> string \<Rightarrow> string \<times> string" where
  "pair_key = (\<lambda>((prof_id, prof_config), algo). (prof_id, algo))"

text \<open>The mask of line 186 on one row.\<close>

definition in_run :: "string \<Rightarrow> string \<Rightarrow> row \<Rightarrow> bool" where
  "in_run prof_id algo r =
     (cell_eq (cell_at r ''scheme'') (Str algo) \<and> cell_eq (cell_at r ''profile'') (Str prof_id))"

text \<open>The commands that a run of the Test Runner invoked, in order.\<close>

fun invoked :: "event list \<Rightarrow> string list" where
  "invoked [] = []"
| "invoked (Invoked cmd # es) = cmd # invoked es"
| "invoked (e # es) = invoked es"

text \<open>No pair of the catalog has its metrics file.\<close>

definition no_artifacts :: "fsys \<Rightarrow> bool" where
  "no_artifacts fs =
     list_all (\<lambda>((prof_id, prof_config), algo). \<not> isfile fs (log_file_of prof_id algo))
       (List.product NET_PROFILES CC_ALGOS)"

text \<open>Where the runner puts the metrics file of a pair (line 70).\<close>

definition metrics_dest :: "string \<Rightarrow> string \<Rightarrow> path" where
  "metrics_dest prof_id algo = result_path_of prof_id algo @ ''/'' @ algo @ ''_cc_log.csv''"

text \<open>
  The directories that the Test Runner makes for the catalog (line 50, which also makes
  the ones above a run directory), and the paths to which it copies the metrics files
  (line 70).
\<close>

definition run_directories :: "path list" where
  "run_directories =
     [''results'',
      ''results/profile_1'', ''results/profile_1/cubic'', ''results/profile_1/fillp_sheep'',
      ''results/profile_1/vegas'',
      ''results/profile_2'', ''results/profile_2/cubic'', ''results/profile_2/fillp_sheep'',
      ''results/profile_2/vegas'']"

definition metrics_destinations :: "path list" where
  "metrics_destinations =
     [''results/profile_1/cubic/cubic_cc_log.csv'',
      ''results/profile_1/fillp_sheep/fillp_sheep_cc_log.csv'',
      ''results/profile_1/vegas/vegas_cc_log.csv'',
      ''results/profile_2/cubic/cubic_cc_log.csv'',
      ''results/profile_2/fillp_sheep/fillp_sheep_cc_log.csv'',
      ''results/profile_2/vegas/vegas_cc_log.csv'']"

text \<open>
  A disk on which the calls of the Test Runner to the operating system find nothing in
  their way: no regular file where a run directory is to be made, no directory where a
  metrics file is to be copied, and no directory whose name matches the metrics pattern of
  a scheme. An emulation command that leaves such a disk so and removes no directory.
\<close>

definition tidy :: "fsys \<Rightarrow> bool" where
  "tidy fs =
     (list_all (\<lambda>d. \<not> isfile fs d) run_directories
      \<and> list_all (\<lambda>d. \<not> isdir fs d) metrics_destinations
      \<and> list_all (\<lambda>q. isdir fs q \<longrightarrow> \<not> list_ex (\<lambda>a. glob_match a q) CC_ALGOS) (map fst fs))"

definition well_behaved :: "shell \<Rightarrow> bool" where
  "well_behaved sh =
     (\<forall>cmd w. (tidy (files w) \<longrightarrow> tidy (files (snd (sh cmd w))))
            \<and> (\<forall>d. isdir (files w) d \<longrightarrow> isdir (files (snd (sh cmd w))) d))"

text \<open>
  The disk that the loop body (lines 48 to 73) leaves when it is run for one pair of the
  catalog, whether it returns or raises.
\<close>

definition after_pair :: "shell \<Rightarrow> world \<Rightarrow> (string \<times> profile) \<times> string \<Rightarrow> world" where
  "after_pair sh w = (\<lambda>((prof_id, prof_config), algo).
     case run_pair sh prof_id prof_config algo (w, []) of
       Inr (w', out) \<Rightarrow> w'
     | Inl (e, (w', out)) \<Rightarrow> w')"

text \<open>
  The documented ranges of a sample; what \<^verbatim>\<open>random.random()\<close> promises of the numbers it
  returns, for every pass of the loop; two samples taken at least one second apart.
\<close>

definition in_range :: "sample \<Rightarrow> bool" where
  "in_range s =
     (1 \<le> throughput s \<and> throughput s \<le> 10 \<and> 100 \<le> rtt s \<and> rtt s \<le> 300
      \<and> 0 \<le> loss_rate s \<and> loss_rate s \<le> 2 / 100
      \<and> 0 \<le> queuing_delay s \<and> queuing_delay s \<le> 50)"

definition unit_interval :: "real \<Rightarrow> bool" where
  "unit_interval u = (0 \<le> u \<and> u < 1)"

definition random_ticks :: "(nat \<Rightarrow> tick) \<Rightarrow> bool" where
  "random_ticks env =
     (\<forall>i. unit_interval (u_throughput (env i)) \<and> unit_interval (u_rtt (env i))
          \<and> unit_interval (u_loss_rate (env i)) \<and> unit_interval (u_queuing_delay (env i)))"

definition a_second_apart :: "sample \<Rightarrow> sample \<Rightarrow> bool" where
  "a_second_apart s s' = (timestamp s + 1 \<le> timestamp s')"

section \<open>Concrete inputs\<close>

text \<open>
  An artifact of three samples for profile 1 and scheme cubic, and a file system that
  holds nothing else.
\<close>

definition example_artifact :: frame where
  "example_artifact =
     \<lparr>columns = [''timestamp'', ''throughput'', ''rtt''],
      rows = [[(''timestamp'', Num (1 / 2)), (''throughput'', Num 4), (''rtt'', Num 100)],
              [(''timestamp'', Num (3 / 2)), (''throughput'', Num 5), (''rtt'', Num 120)],
              [(''timestamp'', Num (5 / 2)), (''throughput'', Num 6), (''rtt'', Num 110)]]\<rparr>"

definition example_files :: fsys where
  "example_files =
     [(''results/profile_1/cubic/cubic_cc_log.csv'', \<lparr>mtime = 7, body = Csv example_artifact\<rparr>)]"

text \<open>An artifact whose scheme logs a column called \<^verbatim>\<open>latency\<close>.\<close>

definition latency_artifact :: frame where
  "latency_artifact =
     \<lparr>columns = [''timestamp'', ''latency''],
      rows = [[(''timestamp'', Num (1 / 2)), (''latency'', Num 42)]]\<rparr>"

definition latency_files :: fsys where
  "latency_files =
     [(''results/profile_1/cubic/cubic_cc_log.csv'', \<lparr>mtime = 7, body = Csv latency_artifact\<rparr>)]"

text \<open>An emulation command that always fails and changes nothing, on an empty disk.\<close>

definition failing_shell :: shell where
  "failing_shell cmd w = (1, w)"

definition empty_world :: world where
  "empty_world = \<lparr>files = [], clock = 0\<rparr>"

definition quiet_drawing :: drawing where
  "quiet_drawing =
     \<lparr>draw_throughput_plot = (\<lambda>df. Inr ()), draw_loss_plot = (\<lambda>df. Inr ()),
      draw_throughput_cdf = (\<lambda>df. Inr ()), scatter_rtt_vs_throughput = (\<lambda>df. Inr ())\<rparr>"



definition passing_shell :: shell where
  "passing_shell cmd w = (0, w)"

text \<open>
  A disk on which the only entry that matches the metrics pattern of cubic is a directory:
  no metrics file of cubic exists.
\<close>

definition directory_world :: world where
  "directory_world =
     \<lparr>files = [(''logs'', \<lparr>mtime = 1, body = Directory\<rparr>),
               (''logs/metrics_cubic_1.csv'', \<lparr>mtime = 3, body = Directory\<rparr>)],
      clock = 20\<rparr>"

text \<open>
  An emulation command that fails at every other call, the first one included, and lets
  the clock advance; a disk with a metrics file of vegas that parses, one of fillp\_sheep
  that does not, and none of cubic.
\<close>

definition flaky_shell :: shell where
  "flaky_shell cmd w = (if even (clock w) then 1 else 0, w\<lparr>clock := Suc (clock w)\<rparr>)"

definition flaky_world :: world where
  "flaky_world =
     \<lparr>files = [(''logs'', \<lparr>mtime = 1, body = Directory\<rparr>),
               (''logs/metrics_vegas_1.csv'', \<lparr>mtime = 3, body = Csv example_artifact\<rparr>),
               (''logs/metrics_fillp_sheep_1.csv'', \<lparr>mtime = 4, body = Unparseable\<rparr>)],
      clock = 0\<rparr>"

text \<open>
  An environment in which every pass sees the same small delays and the same random
  numbers.
\<close>

definition steady_env :: "nat \<Rightarrow> tick" where
  "steady_env i =
     \<lparr>test_lag = 1000, stamp_lag = 500, oversleep = 200000,
      u_throughput = 1 / 2, u_rtt = 1 / 4, u_loss_rate = 1 / 2, u_queuing_delay = 1 / 10\<rparr>"

text \<open>
  Two artifacts of profile 1: the one of cubic has no \<^verbatim>\<open>loss_rate\<close> column, the one of
  vegas has.
\<close>

definition lossy_artifact :: frame where
  "lossy_artifact =
     \<lparr>columns = [''timestamp'', ''throughput'', ''rtt'', ''loss_rate''],
      rows = [[(''timestamp'', Num (1 / 2)), (''throughput'', Num 5), (''rtt'', Num 120), (''loss_rate'', Num (1 / 100))],
              [(''timestamp'', Num (3 / 2)), (''throughput'', Num 6), (''rtt'', Num 130), (''loss_rate'', Num (2 / 100))],
              [(''timestamp'', Num (5 / 2)), (''throughput'', Num 7), (''rtt'', Num 140), (''loss_rate'', Num (3 / 100))]]\<rparr>"

definition mixed_files :: fsys where
  "mixed_files =
     [(''results/profile_1/cubic/cubic_cc_log.csv'', \<lparr>mtime = 7, body = Csv example_artifact\<rparr>),
      (''results/profile_1/vegas/vegas_cc_log.csv'', \<lparr>mtime = 8, body = Csv lossy_artifact\<rparr>)]"

text \<open>The processes of a receiver whose transfer process exits with status 1.\<close>

definition failing_receiver :: processes where
  "failing_receiver =
     \<lparr>make_result = Inr 0, metrics_spawn = None, transfer_spawn = None,
      transfer_status = Some 1, passes = [], transfer_running = False\<rparr>"

text \<open>A disk on which only the working directory exists.\<close>

definition bare_store :: store where
  "bare_store = \<lparr>dirs = [], saved = []\<rparr>"

section \<open>The Aggregator: what every row carries\<close>

subsection \<open>The loops as a list of contributions\<close>

lemma cell_at_set_cell:
  "cell_at (set_cell c v r) c' = (if c' = c then v else cell_at r c')"
  by (simp add: cell_at_def set_cell_def update_conv')

lemma collect_one_eq:
  "collect_one fs p cfg frames a = frames @ contribution fs ((p, cfg), a)"
  by (auto simp: collect_one_def contribution_def isfile_def read_csv_def Let_def split: option.splits sum.splits body.splits)

lemma foldl_collect_one:
  "foldl (collect_one fs p cfg) frames algos = frames @ concat (map (\<lambda>a. contribution fs ((p, cfg), a)) algos)"
  by (induction algos arbitrary: frames) (simp_all add: collect_one_eq)

lemma foldl_collect_profiles:
  "foldl (\<lambda>frames (prof_id, prof_config). foldl (collect_one fs prof_id prof_config) frames algos) frames profiles
    = frames @ concat (map (contribution fs) (List.product profiles algos))"
  by (induction profiles arbitrary: frames) (auto simp: foldl_collect_one map_concat comp_def)

lemma collect_frames_eq:
  "collect_frames fs profiles algos = concat (map (contribution fs) (List.product profiles algos))"
  by (simp add: collect_frames_def foldl_collect_profiles)

lemma rows_collect_dataframes:
  "rows (collect_dataframes fs) = concat (map rows (collect_frames fs NET_PROFILES CC_ALGOS))"
  by (simp add: collect_dataframes_def concat_frames_def empty_frame_def Let_def)

lemma rows_tag_frame:
  "rows (tag_frame a p cfg df) = map (\<lambda>(i, r). tag_row a p cfg i r) (zip [0..<length (rows df)] (rows df))"
  by (simp add: tag_frame_def set_col_range_def set_col_def tag_row_def zip_map2 comp_def split_def)

lemma length_rows_tag_frame: "length (rows (tag_frame a p cfg df)) = length (rows df)"
  by (simp add: rows_tag_frame)

lemma cell_at_tag_row:
  "cell_at (tag_row a p cfg i r) c =
     (if c = ''timestamp'' then Num (real i)
      else if c = ''latency'' then Num (real (latency cfg))
      else if c = ''profile_name'' then Str (name cfg)
      else if c = ''profile'' then Str p
      else if c = ''scheme'' then Str a
      else cell_at r c)"
  by (simp add: tag_row_def cell_at_set_cell)

lemma tagged_row_cases:
  assumes "r \<in> set (rows (tag_frame a p cfg df))"
  obtains i r0 where "i < length (rows df)" "r0 = rows df ! i" "r = tag_row a p cfg i r0"
  using assms by (auto simp: rows_tag_frame set_zip)

lemma columns_tag_frame:
  "set (columns (tag_frame a p cfg df)) =
     set (columns df) \<union> {''scheme'', ''profile'', ''profile_name'', ''latency'', ''timestamp''}"
  by (auto simp: tag_frame_def set_col_range_def set_col_def add_column_def)

lemma set_foldl_union_columns:
  "set (foldl union_columns acc css) = set acc \<union> \<Union> (set ` set css)"
  by (induction css arbitrary: acc) (auto simp: union_columns_def)

lemma columns_concat_frames:
  "set (columns (concat_frames fs)) = \<Union> ((\<lambda>df. set (columns df)) ` set fs)"
  by (simp add: concat_frames_def set_foldl_union_columns)

lemma contribution_member:
  "f \<in> set (contribution fs ((p, cfg), a)) \<longleftrightarrow>
     (\<exists>df. read_csv fs (log_file_of p a) = Inr df \<and> f = tag_frame a p cfg df)"
  by (cases "read_csv fs (log_file_of p a)") (auto simp: contribution_def)

lemma aggregate_row_origin:
  assumes "r \<in> set (rows (collect_dataframes fs))"
  obtains p cfg a df i where "(p, cfg) \<in> set NET_PROFILES" "a \<in> set CC_ALGOS"
    "read_csv fs (log_file_of p a) = Inr df" "i < length (rows df)"
    "r = tag_row a p cfg i (rows df ! i)"
proof -
  from assms obtain f where f: "f \<in> set (collect_frames fs NET_PROFILES CC_ALGOS)" and r: "r \<in> set (rows f)"
    by (auto simp: rows_collect_dataframes)
  from f obtain p cfg a where pa: "(p, cfg) \<in> set NET_PROFILES" "a \<in> set CC_ALGOS"
    and fc: "f \<in> set (contribution fs ((p, cfg), a))"
    by (auto simp: collect_frames_eq)
  from fc obtain df where df: "read_csv fs (log_file_of p a) = Inr df" "f = tag_frame a p cfg df"
    by (auto simp: contribution_member)
  from r df(2) obtain i where "i < length (rows df)" "r = tag_row a p cfg i (rows df ! i)"
    by (auto elim: tagged_row_cases)
  with pa df(1) that show thesis by blast
qed

text \<open>
  Claim C3. Every row of the frame that \<open>collect_dataframes\<close> returns carries, in its
  \<^verbatim>\<open>profile\<close> and \<^verbatim>\<open>scheme\<close> columns, a key of \<open>NET_PROFILES\<close> and an entry of
  \<open>CC_ALGOS\<close>: no row has a pair outside the catalog, whatever the file system holds.
\<close>

theorem aggregate_rows_in_catalog:
  "\<forall>r \<in> set (rows (collect_dataframes fs)).
     \<exists>p \<in> fst ` set NET_PROFILES. \<exists>a \<in> set CC_ALGOS.
       cell_at r ''profile'' = Str p \<and> cell_at r ''scheme'' = Str a"
proof
  fix r assume "r \<in> set (rows (collect_dataframes fs))"
  then obtain p cfg a i and df :: frame where "(p, cfg) \<in> set NET_PROFILES" "a \<in> set CC_ALGOS"
    "r = tag_row a p cfg i (rows df ! i)"
    by (rule aggregate_row_origin)
  then show "\<exists>p \<in> fst ` set NET_PROFILES. \<exists>a \<in> set CC_ALGOS.
       cell_at r ''profile'' = Str p \<and> cell_at r ''scheme'' = Str a"
    by (force simp: cell_at_tag_row)
qed

lemma example_read:
  "read_csv example_files (log_file_of ''1'' ''cubic'') = Inr example_artifact"
  by (simp add: read_csv_def example_files_def log_file_of_def)

lemma example_catalog:
  "(''1'', snd (hd NET_PROFILES)) \<in> set NET_PROFILES" "''cubic'' \<in> set CC_ALGOS"
  by (simp_all add: NET_PROFILES_def CC_ALGOS_def)

lemma example_rows:
  "rows (collect_dataframes example_files) = rows (tag_frame ''cubic'' ''1'' (snd (hd NET_PROFILES)) example_artifact)"
  by (simp add: rows_collect_dataframes collect_frames_eq NET_PROFILES_def CC_ALGOS_def
      contribution_def read_csv_def example_files_def log_file_of_def)

theorem aggregate_rows_in_catalog_witness:
  "rows (collect_dataframes example_files) \<noteq> []
   \<and> (\<exists>p \<in> fst ` set NET_PROFILES. \<exists>a \<in> set CC_ALGOS.
         cell_at (hd (rows (collect_dataframes example_files))) ''profile'' = Str p
       \<and> cell_at (hd (rows (collect_dataframes example_files))) ''scheme'' = Str a)"
proof -
  have ne: "rows (collect_dataframes example_files) \<noteq> []"
    by (simp add: example_rows rows_tag_frame example_artifact_def)
  then have "hd (rows (collect_dataframes example_files)) \<in> set (rows (collect_dataframes example_files))"
    by simp
  with aggregate_rows_in_catalog [of example_files] ne show ?thesis by blast
qed

subsection \<open>The rows of one run\<close>

lemma catalog_pairs_distinct:
  "distinct (map pair_key (List.product NET_PROFILES CC_ALGOS))"
  by (simp add: NET_PROFILES_def CC_ALGOS_def pair_key_def)

lemma concat_single_key:
  "distinct (map key xs) \<Longrightarrow> x \<in> set xs \<Longrightarrow>
     concat (map (\<lambda>y. if key y = key x then g y else []) xs) = g x"
proof (induction xs)
  case Nil
  then show ?case by simp
next
  case (Cons y ys)
  show ?case
  proof (cases "y = x")
    case True
    with Cons.prems have "key x \<notin> key ` set ys" by simp
    then have "\<forall>z \<in> set ys. key z \<noteq> key x" by (metis imageI)
    then have "concat (map (\<lambda>y. if key y = key x then g y else []) ys) = []"
      by (induction ys) auto
    with True show ?thesis by simp
  next
    case False
    with Cons.prems have "x \<in> set ys" "key y \<noteq> key x" "distinct (map key ys)" by auto
    with Cons.IH show ?thesis by simp
  qed
qed

lemma in_run_tag_row: "in_run p a (tag_row a' p' cfg i r) \<longleftrightarrow> p' = p \<and> a' = a"
  by (auto simp: in_run_def cell_eq_def cell_at_tag_row)

lemma filter_rows_tag_frame:
  "filter (in_run p a) (rows (tag_frame a' p' cfg df)) =
     (if p' = p \<and> a' = a then rows (tag_frame a' p' cfg df) else [])"
  by (auto simp: rows_tag_frame filter_map comp_def split_def in_run_tag_row)

lemma filter_contribution:
  "concat (map (\<lambda>f. filter (in_run p a) (rows f)) (contribution fs x)) =
     (if pair_key x = pair_key ((p, cfg), a) then concat (map rows (contribution fs x)) else [])"
proof -
  obtain p' cfg' a' where x: "x = ((p', cfg'), a')" by (metis surj_pair)
  show ?thesis
    by (cases "read_csv fs (log_file_of p' a')")
       (auto simp: x contribution_def pair_key_def filter_rows_tag_frame)
qed

lemma rows_collect_dataframes_concat:
  "rows (collect_dataframes fs) =
     concat (map (\<lambda>x. concat (map rows (contribution fs x))) (List.product NET_PROFILES CC_ALGOS))"
proof -
  have "concat (map rows (concat (map h xs))) = concat (map (\<lambda>x. concat (map rows (h x))) xs)"
    for h :: "(string \<times> profile) \<times> string \<Rightarrow> frame list" and xs
    by (induction xs) simp_all
  then show ?thesis by (simp add: rows_collect_dataframes collect_frames_eq)
qed

lemma filter_concat_map:
  "filter P (concat (map g xs)) = concat (map (\<lambda>x. filter P (g x)) xs)"
  by (induction xs) simp_all

lemma run_rows_of_aggregate:
  assumes "(p, cfg) \<in> set NET_PROFILES" "a \<in> set CC_ALGOS"
    and "read_csv fs (log_file_of p a) = Inr df"
  shows "filter (in_run p a) (rows (collect_dataframes fs)) = rows (tag_frame a p cfg df)"
proof -
  let ?g = "\<lambda>x. concat (map rows (contribution fs x))"
  let ?x = "((p, cfg), a)"
  have mem: "?x \<in> set (List.product NET_PROFILES CC_ALGOS)" using assms by simp
  have "filter (in_run p a) (rows (collect_dataframes fs)) =
      concat (map (\<lambda>y. if pair_key y = pair_key ?x then ?g y else []) (List.product NET_PROFILES CC_ALGOS))"
    by (simp only: rows_collect_dataframes_concat filter_concat_map filter_contribution [where cfg = cfg])
  also have "\<dots> = ?g ?x"
    by (rule concat_single_key [OF catalog_pairs_distinct mem])
  also have "\<dots> = rows (tag_frame a p cfg df)"
    using assms(3) by (simp add: contribution_def)
  finally show ?thesis .
qed

lemma columns_of_aggregate:
  assumes "(p, cfg) \<in> set NET_PROFILES" "a \<in> set CC_ALGOS"
    and "read_csv fs (log_file_of p a) = Inr df"
  shows "set (columns (tag_frame a p cfg df)) \<subseteq> set (columns (collect_dataframes fs))"
proof -
  have "tag_frame a p cfg df \<in> set (contribution fs ((p, cfg), a))"
    using assms(3) by (simp add: contribution_def)
  with assms(1,2) have mem: "tag_frame a p cfg df \<in> set (collect_frames fs NET_PROFILES CC_ALGOS)"
    by (force simp: collect_frames_eq)
  then have "collect_frames fs NET_PROFILES CC_ALGOS \<noteq> []" by auto
  then have "collect_dataframes fs = concat_frames (collect_frames fs NET_PROFILES CC_ALGOS)"
    by (simp add: collect_dataframes_def)
  with mem show ?thesis by (auto simp: columns_concat_frames)
qed

lemma select_run_of_aggregate:
  assumes "(p, cfg) \<in> set NET_PROFILES" "a \<in> set CC_ALGOS"
    and "read_csv fs (log_file_of p a) = Inr df"
  shows "select_run (collect_dataframes fs) (Str a) (Str p) =
           Inr \<lparr>columns = columns (collect_dataframes fs), rows = rows (tag_frame a p cfg df)\<rparr>"
proof -
  have "''scheme'' \<in> set (columns (collect_dataframes fs))" "''profile'' \<in> set (columns (collect_dataframes fs))"
    using columns_of_aggregate [OF assms] by (auto simp: columns_tag_frame)
  moreover have "filter (\<lambda>r. cell_eq (cell_at r ''scheme'') (Str a) \<and> cell_eq (cell_at r ''profile'') (Str p))
        (rows (collect_dataframes fs)) = rows (tag_frame a p cfg df)"
    using run_rows_of_aggregate [OF assms] by (simp add: in_run_def [abs_def])
  ultimately show ?thesis by (simp add: select_run_def)
qed

lemma column_of_tag_frame:
  "map (\<lambda>r. cell_at r c) (rows (tag_frame a p cfg df)) =
     (if c = ''timestamp'' then map (\<lambda>i. Num (real i)) [0..<length (rows df)]
      else if c = ''latency'' then replicate (length (rows df)) (Num (real (latency cfg)))
      else if c = ''profile_name'' then replicate (length (rows df)) (Str (name cfg))
      else if c = ''profile'' then replicate (length (rows df)) (Str p)
      else if c = ''scheme'' then replicate (length (rows df)) (Str a)
      else map (\<lambda>r. cell_at r c) (rows df))"
  by (auto simp: rows_tag_frame cell_at_tag_row comp_def split_def map_replicate_const
      intro!: nth_equalityI)

text \<open>
  Claim C4. When the artifact of a pair of the catalog parses to a frame \<open>df\<close>, the rows
  that the selection of line 186 finds for that pair in the aggregate are the rows of
  \<open>df\<close> in the order of \<open>df\<close>, as many as \<open>df\<close> has: the row at position \<open>i\<close>
  carries \<open>i\<close> in its \<^verbatim>\<open>timestamp\<close> column and, in every column other than the five
  that the Aggregator assigns, the value that row \<open>i\<close> of the artifact has there. So the
  \<^verbatim>\<open>timestamp\<close> column reads exactly 0, 1, ..., n - 1 in this order, \<open>n\<close> being the
  number of rows of \<open>df\<close>, and index \<open>i\<close> is on the artifact's row \<open>i\<close>.
\<close>

theorem sequence_index_counts_rows:
  assumes "(p, cfg) \<in> set NET_PROFILES" "a \<in> set CC_ALGOS"
    and "read_csv fs (log_file_of p a) = Inr df"
  shows "\<exists>subdata. select_run (collect_dataframes fs) (Str a) (Str p) = Inr subdata
           \<and> get_col subdata ''timestamp'' = Inr (map (\<lambda>i. Num (real i)) [0..<length (rows df)])
           \<and> length (rows subdata) = length (rows df)
           \<and> rows subdata = rows (tag_frame a p cfg df)
           \<and> (\<forall>i < length (rows df).
                 cell_at (rows subdata ! i) ''timestamp'' = Num (real i)
               \<and> (\<forall>c. c \<notin> {''scheme'', ''profile'', ''profile_name'', ''latency'', ''timestamp''}
                      \<longrightarrow> cell_at (rows subdata ! i) c = cell_at (rows df ! i) c))"
proof -
  have "''timestamp'' \<in> set (columns (collect_dataframes fs))"
    using columns_of_aggregate [OF assms] by (auto simp: columns_tag_frame)
  moreover have "cell_at (rows (tag_frame a p cfg df) ! i) c =
      (if c = ''timestamp'' then Num (real i)
       else if c = ''latency'' then Num (real (latency cfg))
       else if c = ''profile_name'' then Str (name cfg)
       else if c = ''profile'' then Str p
       else if c = ''scheme'' then Str a
       else cell_at (rows df ! i) c)" if "i < length (rows df)" for i c
    using that by (simp add: rows_tag_frame cell_at_tag_row)
  ultimately show ?thesis
    by (simp add: select_run_of_aggregate [OF assms] get_col_def column_of_tag_frame
        length_rows_tag_frame)
qed

text \<open>
  On the example artifact, whose rows have throughput 4, 5 and 6 in this order, index 0 is
  on the row of throughput 4 and index 2 on the row of throughput 6.
\<close>

theorem sequence_index_counts_rows_witness:
  "(''1'', snd (hd NET_PROFILES)) \<in> set NET_PROFILES \<and> ''cubic'' \<in> set CC_ALGOS
   \<and> read_csv example_files (log_file_of ''1'' ''cubic'') = Inr example_artifact
   \<and> map (\<lambda>r. cell_at r ''throughput'') (rows example_artifact) = [Num 4, Num 5, Num 6]
   \<and> (\<exists>subdata. select_run (collect_dataframes example_files) (Str ''cubic'') (Str ''1'') = Inr subdata
          \<and> get_col subdata ''timestamp'' = Inr [Num 0, Num 1, Num 2]
          \<and> length (rows subdata) = 3
          \<and> cell_at (rows subdata ! 0) ''timestamp'' = Num 0
          \<and> cell_at (rows subdata ! 0) ''throughput'' = Num 4
          \<and> cell_at (rows subdata ! 2) ''timestamp'' = Num 2
          \<and> cell_at (rows subdata ! 2) ''throughput'' = Num 6)"
proof -
  have n: "[0..<length (rows example_artifact)] = [0, 1, 2]" "length (rows example_artifact) = 3"
    by (simp_all add: example_artifact_def upt_rec)
  have thr: "map (\<lambda>r. cell_at r ''throughput'') (rows example_artifact) = [Num 4, Num 5, Num 6]"
    by (simp add: example_artifact_def cell_at_def)
  then have t0: "cell_at (rows example_artifact ! 0) ''throughput'' = Num 4"
    and t2: "cell_at (rows example_artifact ! 2) ''throughput'' = Num 6"
    by (simp_all add: example_artifact_def cell_at_def)
  from sequence_index_counts_rows [OF example_catalog example_read]
  obtain subdata where sel: "select_run (collect_dataframes example_files) (Str ''cubic'') (Str ''1'') = Inr subdata"
    and ts: "get_col subdata ''timestamp'' = Inr (map (\<lambda>i. Num (real i)) [0..<length (rows example_artifact)])"
    and len: "length (rows subdata) = length (rows example_artifact)"
    and each: "\<forall>i < length (rows example_artifact).
                 cell_at (rows subdata ! i) ''timestamp'' = Num (real i)
               \<and> (\<forall>c. c \<notin> {''scheme'', ''profile'', ''profile_name'', ''latency'', ''timestamp''}
                      \<longrightarrow> cell_at (rows subdata ! i) c = cell_at (rows example_artifact ! i) c)"
    by blast
  from each n(2) have "cell_at (rows subdata ! 0) ''timestamp'' = Num 0"
    "cell_at (rows subdata ! 0) ''throughput'' = cell_at (rows example_artifact ! 0) ''throughput''"
    "cell_at (rows subdata ! 2) ''timestamp'' = Num 2"
    "cell_at (rows subdata ! 2) ''throughput'' = cell_at (rows example_artifact ! 2) ''throughput''"
    by (auto simp: eval_nat_numeral)
  with sel ts len n t0 t2 thr example_catalog example_read show ?thesis
    by auto
qed

text \<open>
  Claim C10, as stated, fails: an artifact may have a column called \<^verbatim>\<open>latency\<close>
  (or \<^verbatim>\<open>scheme\<close>, \<^verbatim>\<open>profile\<close>, \<^verbatim>\<open>profile_name\<close>), and lines 84 to 87 overwrite it as
  line 88 overwrites \<^verbatim>\<open>timestamp\<close>. The artifact below records a latency of 42 for
  profile 1, and the aggregate holds the 5 of the catalog in its place.
\<close>

theorem latency_column_overwritten:
  "get_col latency_artifact ''latency'' = Inr [Num 42]
   \<and> select_run (collect_dataframes latency_files) (Str ''cubic'') (Str ''1'')
       = Inr (collect_dataframes latency_files)
   \<and> get_col (collect_dataframes latency_files) ''latency'' = Inr [Num 5]"
  by (simp add: get_col_def latency_artifact_def latency_files_def collect_dataframes_def
      collect_frames_def collect_one_def isfile_def read_csv_def log_file_of_def
      NET_PROFILES_def CC_ALGOS_def tag_frame_def set_col_def set_col_range_def set_cell_def
      add_column_def concat_frames_def union_columns_def select_run_def cell_eq_def cell_at_def)

text \<open>
  Claim C10, amended. When the artifact of a pair of the catalog parses to a frame
  \<open>df\<close>, the rows of that pair in the aggregate keep the values of every column of \<open>df\<close>
  other than \<^verbatim>\<open>timestamp\<close>, \<^verbatim>\<open>scheme\<close>, \<^verbatim>\<open>profile\<close>, \<^verbatim>\<open>profile_name\<close> and
  \<^verbatim>\<open>latency\<close>; the \<^verbatim>\<open>timestamp\<close> column holds the row indices 0, ..., n - 1 instead of
  the recorded elapsed times, and the other four hold the scheme and the profile's id,
  name and latency.
\<close>

theorem artifact_columns_preserved:
  assumes "(p, cfg) \<in> set NET_PROFILES" "a \<in> set CC_ALGOS"
    and "read_csv fs (log_file_of p a) = Inr df"
  shows "\<exists>subdata. select_run (collect_dataframes fs) (Str a) (Str p) = Inr subdata
           \<and> (\<forall>c \<in> set (columns df).
                 c \<notin> {''scheme'', ''profile'', ''profile_name'', ''latency'', ''timestamp''}
                 \<longrightarrow> get_col subdata c = get_col df c)
           \<and> get_col subdata ''timestamp'' = Inr (map (\<lambda>i. Num (real i)) [0..<length (rows df)])
           \<and> get_col subdata ''latency'' = Inr (replicate (length (rows df)) (Num (real (latency cfg))))
           \<and> get_col subdata ''profile_name'' = Inr (replicate (length (rows df)) (Str (name cfg)))
           \<and> get_col subdata ''profile'' = Inr (replicate (length (rows df)) (Str p))
           \<and> get_col subdata ''scheme'' = Inr (replicate (length (rows df)) (Str a))"
proof -
  have cols: "set (columns df) \<union> {''scheme'', ''profile'', ''profile_name'', ''latency'', ''timestamp''}
      \<subseteq> set (columns (collect_dataframes fs))"
    using columns_of_aggregate [OF assms] by (simp add: columns_tag_frame)
  let ?sub = "\<lparr>columns = columns (collect_dataframes fs), rows = rows (tag_frame a p cfg df)\<rparr>"
  have keep: "get_col ?sub c = get_col df c"
    if "c \<in> set (columns df)" "c \<notin> {''scheme'', ''profile'', ''profile_name'', ''latency'', ''timestamp''}" for c
    using that cols by (auto simp: get_col_def column_of_tag_frame)
  have meta: "get_col ?sub ''timestamp'' = Inr (map (\<lambda>i. Num (real i)) [0..<length (rows df)])"
    "get_col ?sub ''latency'' = Inr (replicate (length (rows df)) (Num (real (latency cfg))))"
    "get_col ?sub ''profile_name'' = Inr (replicate (length (rows df)) (Str (name cfg)))"
    "get_col ?sub ''profile'' = Inr (replicate (length (rows df)) (Str p))"
    "get_col ?sub ''scheme'' = Inr (replicate (length (rows df)) (Str a))"
    using cols by (simp_all add: get_col_def column_of_tag_frame)
  show ?thesis
    using keep meta by (simp add: select_run_of_aggregate [OF assms])
qed

theorem artifact_columns_preserved_witness:
  "(''1'', snd (hd NET_PROFILES)) \<in> set NET_PROFILES \<and> ''cubic'' \<in> set CC_ALGOS
   \<and> read_csv example_files (log_file_of ''1'' ''cubic'') = Inr example_artifact
   \<and> ''throughput'' \<in> set (columns example_artifact)
   \<and> (\<exists>subdata. select_run (collect_dataframes example_files) (Str ''cubic'') (Str ''1'') = Inr subdata
          \<and> get_col subdata ''throughput'' = Inr [Num 4, Num 5, Num 6]
          \<and> get_col subdata ''timestamp'' = Inr [Num 0, Num 1, Num 2]
          \<and> get_col subdata ''latency'' = Inr [Num 5, Num 5, Num 5])"
proof -
  from artifact_columns_preserved [OF example_catalog example_read]
  obtain subdata where sel: "select_run (collect_dataframes example_files) (Str ''cubic'') (Str ''1'') = Inr subdata"
    and keep: "\<forall>c \<in> set (columns example_artifact).
                 c \<notin> {''scheme'', ''profile'', ''profile_name'', ''latency'', ''timestamp''}
                 \<longrightarrow> get_col subdata c = get_col example_artifact c"
    and ts: "get_col subdata ''timestamp'' = Inr (map (\<lambda>i. Num (real i)) [0..<length (rows example_artifact)])"
    and lat: "get_col subdata ''latency'' =
                Inr (replicate (length (rows example_artifact)) (Num (real (latency (snd (hd NET_PROFILES))))))"
    by blast
  have col: "''throughput'' \<in> set (columns example_artifact)"
    by (simp add: example_artifact_def)
  with keep have "get_col subdata ''throughput'' = get_col example_artifact ''throughput''"
    by simp
  also have "\<dots> = Inr [Num 4, Num 5, Num 6]"
    by (simp add: get_col_def example_artifact_def cell_at_def)
  finally have thr: "get_col subdata ''throughput'' = Inr [Num 4, Num 5, Num 6]" .
  have "[0..<length (rows example_artifact)] = [0, 1, 2]"
    by (simp add: example_artifact_def upt_rec)
  with ts have ts': "get_col subdata ''timestamp'' = Inr [Num 0, Num 1, Num 2]" by simp
  from lat have lat': "get_col subdata ''latency'' = Inr [Num 5, Num 5, Num 5]"
    by (simp add: example_artifact_def NET_PROFILES_def eval_nat_numeral)
  from sel thr ts' lat' col example_catalog example_read show ?thesis by blast
qed

section \<open>The Test Runner: directories, matching files and the copy\<close>

subsection \<open>Making the run directories\<close>

lemma isdir_is_entry: "isdir fs q \<Longrightarrow> q \<in> fst ` set fs"
  by (cases "map_of fs q") (force simp: isdir_def dest: map_of_SomeD)+

lemma tidy_iff:
  "tidy fs \<longleftrightarrow>
     (\<forall>d \<in> set run_directories. \<not> isfile fs d)
   \<and> (\<forall>d \<in> set metrics_destinations. \<not> isdir fs d)
   \<and> (\<forall>q. \<forall>a \<in> set CC_ALGOS. glob_match a q \<longrightarrow> \<not> isdir fs q)"
  unfolding tidy_def list_all_iff list_ex_iff
  using isdir_is_entry by fastforce

lemma isfile_update:
  "isfile (AList.update k v fs) q = (if q = k then body v \<noteq> Directory else isfile fs q)"
  by (simp add: isfile_def update_conv')

lemma isdir_update:
  "isdir (AList.update k v fs) q = (if q = k then body v = Directory else isdir fs q)"
  by (simp add: isdir_def update_conv')

lemma isfile_not_isdir: "isfile fs q \<Longrightarrow> \<not> isdir fs q"
  by (auto simp: isfile_def isdir_def split: option.splits)

lemma run_directory_no_metrics_name:
  "d \<in> set run_directories \<Longrightarrow> a \<in> set CC_ALGOS \<Longrightarrow> \<not> glob_match a d"
  by (auto simp: run_directories_def CC_ALGOS_def glob_match_def)

lemma run_directory_no_destination:
  "d \<in> set run_directories \<Longrightarrow> d \<notin> set metrics_destinations"
  by (auto simp: run_directories_def metrics_destinations_def)

lemma isdir_add_dir:
  "isdir (files (add_dir d w)) q \<longleftrightarrow> q = d \<or> isdir (files w) q"
  by (auto simp: add_dir_def isdir_update)

lemma isfile_add_dir:
  "\<not> isfile (files w) d \<Longrightarrow> isfile (files (add_dir d w)) q = isfile (files w) q"
  by (auto simp: add_dir_def isfile_update)

lemma tidy_add_dir:
  assumes "tidy (files w)" "d \<in> set run_directories"
  shows "tidy (files (add_dir d w))"
proof -
  from assms have nf: "\<not> isfile (files w) d" by (simp add: tidy_iff)
  show ?thesis
    using assms run_directory_no_metrics_name [OF assms(2)] run_directory_no_destination [OF assms(2)]
    unfolding tidy_iff
    by (auto simp: isfile_add_dir [OF nf] isdir_add_dir)
qed

lemma clock_add_dir: "clock (add_dir d w) = clock w"
  by (simp add: add_dir_def)

lemma make_chain_ok:
  "set ds \<subseteq> set run_directories \<Longrightarrow> tidy (files w) \<Longrightarrow>
     \<exists>w0. make_chain ds w = Inr w0 \<and> tidy (files w0) \<and> clock w0 = clock w
          \<and> (\<forall>d \<in> set ds. isdir (files w0) d)
          \<and> (\<forall>d. isdir (files w) d \<longrightarrow> isdir (files w0) d)"
proof (induction ds w rule: make_chain.induct)
  case (1 w)
  then show ?case by simp
next
  case (2 d w)
  then have nf: "\<not> isfile (files w) d" by (simp add: tidy_iff)
  with 2 show ?case
    by (simp add: tidy_add_dir clock_add_dir isdir_add_dir)
next
  case (3 d d' ds w)
  then have nf: "\<not> isfile (files w) d" by (simp add: tidy_iff)
  from 3 have t: "tidy (files (add_dir d w))" by (simp add: tidy_add_dir)
  from "3.IH" [OF nf _ t] "3.prems"
  obtain w0 where w0: "make_chain (d' # ds) (add_dir d w) = Inr w0" "tidy (files w0)"
    "clock w0 = clock (add_dir d w)" "\<forall>x \<in> set (d' # ds). isdir (files w0) x"
    "\<forall>x. isdir (files (add_dir d w)) x \<longrightarrow> isdir (files w0) x"
    by auto
  with nf show ?case
    by (auto simp: clock_add_dir isdir_add_dir)
qed

lemma result_chain:
  assumes "(p, cfg) \<in> set NET_PROFILES" "a \<in> set CC_ALGOS"
  shows "set (ancestors (result_path_of p a) @ [result_path_of p a]) \<subseteq> set run_directories"
  using assms
  by (auto simp: NET_PROFILES_def CC_ALGOS_def result_path_of_def ancestors_def run_directories_def)

lemma makedirs_result_path:
  assumes "(p, cfg) \<in> set NET_PROFILES" "a \<in> set CC_ALGOS" "tidy (files w)"
  shows "\<exists>w0. makedirs (result_path_of p a) w = Inr w0 \<and> tidy (files w0) \<and> clock w0 = clock w
           \<and> isdir (files w0) (result_path_of p a)
           \<and> (\<forall>d. isdir (files w) d \<longrightarrow> isdir (files w0) d)"
  using make_chain_ok [OF result_chain [OF assms(1,2)] assms(3)]
  by (auto simp: makedirs_def)

subsection \<open>The matching entries and the newest one\<close>

lemma glob_is_entry: "q \<in> set (glob fs a) \<Longrightarrow> \<exists>f. map_of fs q = Some f"
  by (cases "map_of fs q") (auto simp: glob_def map_of_eq_None_iff)

lemma map_err_getmtime:
  "\<forall>q \<in> set qs. map_of fs q \<noteq> None \<Longrightarrow>
     map_err (getmtime fs) qs = Inr (map (\<lambda>q. mtime (the (map_of fs q))) qs)"
  by (induction qs) (auto simp: getmtime_def)

lemma sorted_reverse_head:
  assumes "sorted_reverse k xs = y # ys"
  shows "y \<in> set xs \<and> (\<forall>q \<in> set xs. k q \<le> k y)"
proof -
  let ?zs = "sort_key k (rev xs)"
  from assms have zs: "?zs = rev ys @ [y]"
    by (simp add: sorted_reverse_def rev_eq_Cons_iff)
  have "sorted (map k ?zs)" by (rule sorted_sort_key)
  with zs have "\<forall>q \<in> set (rev ys). k q \<le> k y"
    by (simp add: sorted_append)
  moreover have "set ?zs = set xs" by simp
  ultimately show ?thesis using zs by auto
qed

lemma length_sorted_reverse: "length (sorted_reverse k xs) = length xs"
  by (simp add: sorted_reverse_def)

lemma sorted_by_mtime_glob:
  "sorted_by_mtime fs (glob fs a) =
     Inr (map fst (sorted_reverse snd (zip (glob fs a) (map (\<lambda>q. mtime (the (map_of fs q))) (glob fs a)))))"
proof -
  have "\<forall>q \<in> set (glob fs a). map_of fs q \<noteq> None"
    using glob_is_entry by fastforce
  then show ?thesis by (simp add: sorted_by_mtime_def map_err_getmtime)
qed

lemma sorted_by_mtime_empty:
  "sorted_by_mtime fs (glob fs a) = Inr [] \<longleftrightarrow> glob fs a = []"
proof -
  let ?ps = "zip (glob fs a) (map (\<lambda>q. mtime (the (map_of fs q))) (glob fs a))"
  have "length (map fst (sorted_reverse snd ?ps)) = length (glob fs a)"
    by (simp add: length_sorted_reverse)
  then show ?thesis
    unfolding sorted_by_mtime_glob by (metis Inr_inject length_0_conv)
qed

lemma sorted_by_mtime_newest:
  assumes "sorted_by_mtime fs (glob fs a) = Inr (src # rest)"
  shows "src \<in> set (glob fs a)
       \<and> (\<exists>f. map_of fs src = Some f
              \<and> (\<forall>q \<in> set (glob fs a). \<forall>g. map_of fs q = Some g \<longrightarrow> mtime g \<le> mtime f))"
proof -
  let ?t = "\<lambda>q. mtime (the (map_of fs q))"
  let ?ps = "zip (glob fs a) (map ?t (glob fs a))"
  from assms have "map fst (sorted_reverse snd ?ps) = src # rest"
    by (simp add: sorted_by_mtime_glob)
  then obtain y ys where y: "sorted_reverse snd ?ps = y # ys" and fy: "fst y = src"
    by (cases "sorted_reverse snd ?ps") auto
  from sorted_reverse_head [OF y]
  have mem: "y \<in> set ?ps" and top: "\<forall>z \<in> set ?ps. snd z \<le> snd y" by simp_all
  have ps: "set ?ps = (\<lambda>q. (q, ?t q)) ` set (glob fs a)"
    by (auto simp: zip_map2 zip_same_conv_map in_set_zip image_iff)
  from mem ps fy have src: "src \<in> set (glob fs a)" and sy: "snd y = ?t src" by auto
  from glob_is_entry [OF src] obtain f where f: "map_of fs src = Some f" by blast
  have "mtime g \<le> mtime f" if "q \<in> set (glob fs a)" "map_of fs q = Some g" for q g
  proof -
    from that(1) ps have "(q, ?t q) \<in> set ?ps" by auto
    with top have "?t q \<le> snd y" by fastforce
    with that(2) sy f show ?thesis by simp
  qed
  with src f show ?thesis by blast
qed



lemma walk_no_slash: "CHR ''/'' \<notin> set cs \<Longrightarrow> walk seen cs = []"
  by (induction cs arbitrary: seen) auto

lemma walk_append: "walk seen (xs @ ys) = walk seen xs @ walk (seen @ xs) ys"
  by (induction xs arbitrary: seen) auto

lemma parent_of_child:
  assumes "d \<noteq> []" "CHR ''/'' \<notin> set leaf"
  shows "parent (d @ ''/'' @ leaf) = Some d"
proof -
  have "ancestors (d @ ''/'' @ leaf) = walk [] d @ [d]"
    using assms by (simp add: ancestors_def walk_append walk_no_slash)
  moreover obtain x xs where "walk [] d @ [d] = x # xs"
    by (cases "walk [] d @ [d]") auto
  moreover have "last (walk [] d @ [d]) = d" by simp
  ultimately show ?thesis by (simp add: parent_def del: last.simps)
qed

subsection \<open>The loop body after a successful invocation\<close>

lemma run_pair_after:
  assumes "makedirs (result_path_of p a) w = Inr w0"
    and "sh (test_command cfg a (result_path_of p a)) w0 = (status, w1)"
  shows "run_pair sh p cfg a (w, out) =
     (let out1 = out @ [Testing a, Invoked (test_command cfg a (result_path_of p a))] in
      if status \<noteq> 0 then Inr (w1, out1 @ [Test_failed a p status])
      else
        (case sorted_by_mtime (files w1) (glob (files w1) a) of
           Inl e \<Rightarrow> Inl (e, (w1, out1 @ [Test_completed a p]))
         | Inr [] \<Rightarrow> Inr (w1, out1 @ [Test_completed a p, No_metrics_found a p])
         | Inr (src # rest) \<Rightarrow>
             (case copy src (metrics_dest p a) w1 of
                Inl e \<Rightarrow> Inl (e, (w1, out1 @ [Test_completed a p]))
              | Inr w2 \<Rightarrow> Inr (w2, out1 @ [Test_completed a p, Metrics_saved a p]))))"
  using assms
  by (simp add: run_pair_def Let_def metrics_dest_def split: sum.splits list.splits)

lemma copy_regular:
  assumes "map_of (files w) src = Some f" "body f \<noteq> Directory"
    and "\<not> isdir (files w) dst" "parent dst = Some d" "isdir (files w) d"
  shows "copy src dst w = Inr (w\<lparr>files := AList.update dst \<lparr>mtime = clock w, body = body f\<rparr> (files w)\<rparr>)"
  using assms by (simp add: copy_def write_file_def)


lemma parent_metrics_dest:
  "CHR ''/'' \<notin> set a \<Longrightarrow>
     parent (''results/profile_'' @ p @ ''/'' @ a @ ''/'' @ a @ ''_cc_log.csv'')
       = Some (''results/profile_'' @ p @ ''/'' @ a)"
  using parent_of_child [of "''results/profile_'' @ p @ ''/'' @ a" "a @ ''_cc_log.csv''"]
  by simp

lemmas run_eval =
  execute_tests_def run_tests_def run_profile_def run_pair_def Let_def makedirs_def ancestors_def
  add_dir_def result_path_of_def glob_def glob_match_def sorted_by_mtime_def getmtime_def
  sorted_reverse_def copy_def write_file_def parent_def basename_def isfile_def isdir_def
  update_conv' NET_PROFILES_def CC_ALGOS_def






section \<open>Partial failure and the empty aggregate\<close>

subsection \<open>The loops of the Test Runner on a tidy disk\<close>

lemma run_pair_out:
  "run_pair sh p cfg a (w, out) =
     (case run_pair sh p cfg a (w, []) of
        Inl (e, (w', later)) \<Rightarrow> Inl (e, (w', out @ later))
      | Inr (w', later) \<Rightarrow> Inr (w', out @ later))"
  by (simp add: run_pair_def Let_def split: sum.splits list.splits prod.splits)

lemma after_pair_eq:
  "run_pair sh p cfg a (w, out) = Inr (w', out') \<Longrightarrow> after_pair sh w ((p, cfg), a) = w'"
  by (subst (asm) run_pair_out) (auto simp: after_pair_def split: sum.splits prod.splits)

lemma tidy_write:
  assumes "tidy fs" "dest \<in> set metrics_destinations" "body v \<noteq> Directory"
  shows "tidy (AList.update dest v fs)"
proof -
  have "dest \<notin> set run_directories"
    using assms(2) run_directory_no_destination by blast
  with assms show ?thesis
    unfolding tidy_iff by (auto simp: isfile_update isdir_update)
qed

lemma catalog_destination:
  assumes "(p, cfg) \<in> set NET_PROFILES" "a \<in> set CC_ALGOS"
  shows "metrics_dest p a \<in> set metrics_destinations"
    and "parent (metrics_dest p a) = Some (result_path_of p a)"
proof -
  show "metrics_dest p a \<in> set metrics_destinations"
    using assms
    by (auto simp: NET_PROFILES_def CC_ALGOS_def metrics_dest_def result_path_of_def
        metrics_destinations_def)
  have "CHR ''/'' \<notin> set a" using assms(2) by (auto simp: CC_ALGOS_def)
  from parent_metrics_dest [OF this, of p]
  show "parent (metrics_dest p a) = Some (result_path_of p a)"
    by (simp add: metrics_dest_def result_path_of_def)
qed

lemma glob_matches: "q \<in> set (glob fs a) \<Longrightarrow> glob_match a q"
  by (simp add: glob_def)

lemma run_pair_ok:
  assumes wb: "well_behaved sh" and cat: "(p, cfg) \<in> set NET_PROFILES" "a \<in> set CC_ALGOS"
    and tidy: "tidy (files w)"
  shows "\<exists>w' later. run_pair sh p cfg a (w, out) =
            Inr (w', out @ Testing a # Invoked (test_command cfg a (result_path_of p a)) # later)
          \<and> invoked later = [] \<and> tidy (files w')"
proof -
  let ?rp = "result_path_of p a"
  let ?cmd = "test_command cfg a ?rp"
  from makedirs_result_path [OF cat tidy] obtain w0 where mk: "makedirs ?rp w = Inr w0"
    and t0: "tidy (files w0)" and d0: "isdir (files w0) ?rp" by blast
  obtain status w1 where sh: "sh ?cmd w0 = (status, w1)" by (cases "sh ?cmd w0")
  from wb t0 d0 sh have t1: "tidy (files w1)" and d1: "isdir (files w1) ?rp"
    unfolding well_behaved_def by (metis snd_conv)+
  note run = run_pair_after [where sh = sh and cfg = cfg and out = out, OF mk sh]
  show ?thesis
  proof (cases "status = 0")
    case False
    with run t1 show ?thesis by (auto simp: Let_def)
  next
    case True
    show ?thesis
    proof (cases "glob (files w1) a = []")
      case e: True
      then have "sorted_by_mtime (files w1) (glob (files w1) a) = Inr []"
        using sorted_by_mtime_empty [of "files w1" a] by blast
      with run True t1 show ?thesis by (auto simp: Let_def)
    next
      case ne: False
      obtain srt where srt0: "sorted_by_mtime (files w1) (glob (files w1) a) = Inr srt"
        by (simp add: sorted_by_mtime_glob)
      with ne have "srt \<noteq> []" using sorted_by_mtime_empty [of "files w1" a] by auto
      then obtain src rest where srt: "sorted_by_mtime (files w1) (glob (files w1) a) = Inr (src # rest)"
        using srt0 by (cases srt) auto
      from sorted_by_mtime_newest [OF srt] obtain f where src: "src \<in> set (glob (files w1) a)"
        and f: "map_of (files w1) src = Some f" by blast
      from t1 cat(2) glob_matches [OF src] have "\<not> isdir (files w1) src"
        unfolding tidy_iff by blast
      with f have reg: "body f \<noteq> Directory" by (simp add: isdir_def)
      from t1 catalog_destination(1) [OF cat] have nd: "\<not> isdir (files w1) (metrics_dest p a)"
        unfolding tidy_iff by blast
      have cp: "copy src (metrics_dest p a) w1 =
          Inr (w1\<lparr>files := AList.update (metrics_dest p a) \<lparr>mtime = clock w1, body = body f\<rparr> (files w1)\<rparr>)"
        using f reg nd catalog_destination(2) [OF cat] d1 by (rule copy_regular)
      have "tidy (AList.update (metrics_dest p a) \<lparr>mtime = clock w1, body = body f\<rparr> (files w1))"
        using t1 catalog_destination(1) [OF cat] reg by (intro tidy_write) auto
      with run True srt cp show ?thesis by (auto simp: Let_def)
    qed
  qed
qed

lemma invoked_append: "invoked (xs @ ys) = invoked xs @ invoked ys"
  by (induction xs rule: invoked.induct) simp_all

lemma inner_loop:
  assumes wb: "well_behaved sh" and cat: "(p, cfg) \<in> set NET_PROFILES"
  shows "set algos \<subseteq> set CC_ALGOS \<Longrightarrow> tidy (files w) \<Longrightarrow>
     \<exists>w' out'. for_each (run_pair sh p cfg) algos (w, out) = Inr (w', out')
        \<and> invoked out' = invoked out @ map (\<lambda>a. test_command cfg a (result_path_of p a)) algos
        \<and> tidy (files w')
        \<and> w' = foldl (after_pair sh) w (map (\<lambda>a. ((p, cfg), a)) algos)"
proof (induction algos arbitrary: w out)
  case Nil
  then show ?case by simp
next
  case (Cons a algos)
  then have a: "a \<in> set CC_ALGOS" and rest: "set algos \<subseteq> set CC_ALGOS" by auto
  from run_pair_ok [OF wb cat a Cons.prems(2), of out]
  obtain w1 later where r: "run_pair sh p cfg a (w, out) =
      Inr (w1, out @ Testing a # Invoked (test_command cfg a (result_path_of p a)) # later)"
    and m: "invoked later = []" and t1: "tidy (files w1)" by blast
  from Cons.IH [OF rest t1, of "out @ Testing a # Invoked (test_command cfg a (result_path_of p a)) # later"]
  obtain w' out' where
    l: "for_each (run_pair sh p cfg) algos
          (w1, out @ Testing a # Invoked (test_command cfg a (result_path_of p a)) # later) = Inr (w', out')"
    and i: "invoked out' =
          invoked (out @ Testing a # Invoked (test_command cfg a (result_path_of p a)) # later)
          @ map (\<lambda>a. test_command cfg a (result_path_of p a)) algos"
    and t: "tidy (files w')"
    and w': "w' = foldl (after_pair sh) w1 (map (\<lambda>a. ((p, cfg), a)) algos)"
    by blast
  from after_pair_eq [OF r] have "after_pair sh w ((p, cfg), a) = w1" .
  with r l i t w' m show ?case
    by (simp add: invoked_append)
qed

lemma outer_loop:
  assumes wb: "well_behaved sh"
  shows "set profiles \<subseteq> set NET_PROFILES \<Longrightarrow> tidy (files w) \<Longrightarrow>
     \<exists>w' out'. for_each (run_profile sh CC_ALGOS) profiles (w, out) = Inr (w', out')
        \<and> invoked out' = invoked out @
             map (\<lambda>((p, cfg), a). test_command cfg a (result_path_of p a)) (List.product profiles CC_ALGOS)
        \<and> tidy (files w')
        \<and> w' = foldl (after_pair sh) w (List.product profiles CC_ALGOS)"
proof (induction profiles arbitrary: w out)
  case Nil
  then show ?case by simp
next
  case (Cons pc profiles)
  obtain p cfg where pc: "pc = (p, cfg)" by (cases pc)
  with Cons.prems have cat: "(p, cfg) \<in> set NET_PROFILES" and rest: "set profiles \<subseteq> set NET_PROFILES"
    by auto
  from inner_loop [OF wb cat subset_refl Cons.prems(2), of "out @ [Running_profile p]"]
  obtain w1 out1 where
    l1: "for_each (run_pair sh p cfg) CC_ALGOS (w, out @ [Running_profile p]) = Inr (w1, out1)"
    and i1: "invoked out1 = invoked (out @ [Running_profile p])
               @ map (\<lambda>a. test_command cfg a (result_path_of p a)) CC_ALGOS"
    and t1: "tidy (files w1)"
    and w1: "w1 = foldl (after_pair sh) w (map (\<lambda>a. ((p, cfg), a)) CC_ALGOS)"
    by blast
  from Cons.IH [OF rest t1, of out1]
  obtain w' out' where
    l: "for_each (run_profile sh CC_ALGOS) profiles (w1, out1) = Inr (w', out')"
    and i: "invoked out' = invoked out1 @
             map (\<lambda>((p, cfg), a). test_command cfg a (result_path_of p a)) (List.product profiles CC_ALGOS)"
    and t: "tidy (files w')"
    and w': "w' = foldl (after_pair sh) w1 (List.product profiles CC_ALGOS)"
    by blast
  from l1 have "run_profile sh CC_ALGOS pc (w, out) = Inr (w1, out1)"
    by (simp add: run_profile_def pc)
  with l i i1 t w' w1 show ?case
    by (simp add: pc invoked_append comp_def)
qed

lemma catalog_commands:
  "map (\<lambda>((p, cfg), a). test_command cfg a (result_path_of p a)) (List.product NET_PROFILES CC_ALGOS) =
     [''mm-delay 5 mm-link mahimahi/traces/TMobile-LTE-driving.down mahimahi/traces/TMobile-LTE-driving.up -- bash -c 'python3 tests/test_schemes.py --schemes ''
        @ [CHR 0x22] @ ''cubic'' @ [CHR 0x22] @ '' > results/profile_1/cubic/log.txt 2>&1'' @ [CHR 0x27],
      ''mm-delay 5 mm-link mahimahi/traces/TMobile-LTE-driving.down mahimahi/traces/TMobile-LTE-driving.up -- bash -c 'python3 tests/test_schemes.py --schemes ''
        @ [CHR 0x22] @ ''fillp_sheep'' @ [CHR 0x22] @ '' > results/profile_1/fillp_sheep/log.txt 2>&1'' @ [CHR 0x27],
      ''mm-delay 5 mm-link mahimahi/traces/TMobile-LTE-driving.down mahimahi/traces/TMobile-LTE-driving.up -- bash -c 'python3 tests/test_schemes.py --schemes ''
        @ [CHR 0x22] @ ''vegas'' @ [CHR 0x22] @ '' > results/profile_1/vegas/log.txt 2>&1'' @ [CHR 0x27],
      ''mm-delay 200 mm-link mahimahi/traces/TMobile-LTE-short.down mahimahi/traces/TMobile-LTE-short.up -- bash -c 'python3 tests/test_schemes.py --schemes ''
        @ [CHR 0x22] @ ''cubic'' @ [CHR 0x22] @ '' > results/profile_2/cubic/log.txt 2>&1'' @ [CHR 0x27],
      ''mm-delay 200 mm-link mahimahi/traces/TMobile-LTE-short.down mahimahi/traces/TMobile-LTE-short.up -- bash -c 'python3 tests/test_schemes.py --schemes ''
        @ [CHR 0x22] @ ''fillp_sheep'' @ [CHR 0x22] @ '' > results/profile_2/fillp_sheep/log.txt 2>&1'' @ [CHR 0x27],
      ''mm-delay 200 mm-link mahimahi/traces/TMobile-LTE-short.down mahimahi/traces/TMobile-LTE-short.up -- bash -c 'python3 tests/test_schemes.py --schemes ''
        @ [CHR 0x22] @ ''vegas'' @ [CHR 0x22] @ '' > results/profile_2/vegas/log.txt 2>&1'' @ [CHR 0x27]]"
  by (simp add: NET_PROFILES_def CC_ALGOS_def test_command_def result_path_of_def digit_char_def)

lemma rows_of_parseable:
  "rows (collect_dataframes fs) =
     concat (map (\<lambda>((p, cfg), a).
                    case read_csv fs (''results/profile_'' @ p @ ''/'' @ a @ ''/'' @ a @ ''_cc_log.csv'') of
                      Inr df \<Rightarrow> rows (tag_frame a p cfg df)
                    | Inl e \<Rightarrow> [])
              (List.product NET_PROFILES CC_ALGOS))"
proof -
  have h: "(\<lambda>x. concat (map rows (contribution fs x))) =
      (\<lambda>((p, cfg), a).
         case read_csv fs (''results/profile_'' @ p @ ''/'' @ a @ ''/'' @ a @ ''_cc_log.csv'') of
           Inr df \<Rightarrow> rows (tag_frame a p cfg df) | Inl e \<Rightarrow> [])"
    by (auto simp: fun_eq_iff contribution_def log_file_of_def split: sum.splits)
  show ?thesis by (simp add: rows_collect_dataframes_concat h)
qed

text \<open>
  Claim C5, as stated, fails. On the disk where the only entry that matches the pattern of
  cubic is a directory, the metrics file of the first pair is missing; its invocation
  succeeds; and the IsADirectoryError of the copy ends \<open>execute_tests\<close> after one command
  of the six: the other five pairs are not executed.
\<close>

theorem matching_directory_ends_run:
  "filter (isfile (files directory_world)) (glob (files directory_world) ''cubic'') = []
   \<and> (case execute_tests passing_shell directory_world of
         Inl (e, (w', out)) \<Rightarrow> e = IsADirectoryError ''logs/metrics_cubic_1.csv'' \<and> length (invoked out) = 1
       | Inr x \<Rightarrow> False)"
  by (simp add: run_eval passing_shell_def directory_world_def)

text \<open>
  Claim C5, amended. On a tidy disk and with a well-behaved emulation command, whatever
  status the command returns for any pair and whatever metrics files it writes or does
  not write, \<open>execute_tests\<close> returns; it has invoked the six commands of the catalog,
  profiles outermost, in the order of the catalog; and the disk it leaves is the one that
  the loop body leaves when run for the six pairs one after the other. For that disk, and
  for every other one, the rows of the aggregate are, pair by pair in that order, the
  tagged rows of the artifacts \<^verbatim>\<open>results/profile_<id>/<scheme>/<scheme>_cc_log.csv\<close>
  that are present and parse, and nothing for the other pairs.
\<close>

theorem partial_failure_isolation:
  assumes "well_behaved sh" and "tidy (files w)"
  shows "(\<exists>w' out. execute_tests sh w = Inr (w', out)
           \<and> invoked out =
     [''mm-delay 5 mm-link mahimahi/traces/TMobile-LTE-driving.down mahimahi/traces/TMobile-LTE-driving.up -- bash -c 'python3 tests/test_schemes.py --schemes ''
        @ [CHR 0x22] @ ''cubic'' @ [CHR 0x22] @ '' > results/profile_1/cubic/log.txt 2>&1'' @ [CHR 0x27],
      ''mm-delay 5 mm-link mahimahi/traces/TMobile-LTE-driving.down mahimahi/traces/TMobile-LTE-driving.up -- bash -c 'python3 tests/test_schemes.py --schemes ''
        @ [CHR 0x22] @ ''fillp_sheep'' @ [CHR 0x22] @ '' > results/profile_1/fillp_sheep/log.txt 2>&1'' @ [CHR 0x27],
      ''mm-delay 5 mm-link mahimahi/traces/TMobile-LTE-driving.down mahimahi/traces/TMobile-LTE-driving.up -- bash -c 'python3 tests/test_schemes.py --schemes ''
        @ [CHR 0x22] @ ''vegas'' @ [CHR 0x22] @ '' > results/profile_1/vegas/log.txt 2>&1'' @ [CHR 0x27],
      ''mm-delay 200 mm-link mahimahi/traces/TMobile-LTE-short.down mahimahi/traces/TMobile-LTE-short.up -- bash -c 'python3 tests/test_schemes.py --schemes ''
        @ [CHR 0x22] @ ''cubic'' @ [CHR 0x22] @ '' > results/profile_2/cubic/log.txt 2>&1'' @ [CHR 0x27],
      ''mm-delay 200 mm-link mahimahi/traces/TMobile-LTE-short.down mahimahi/traces/TMobile-LTE-short.up -- bash -c 'python3 tests/test_schemes.py --schemes ''
        @ [CHR 0x22] @ ''fillp_sheep'' @ [CHR 0x22] @ '' > results/profile_2/fillp_sheep/log.txt 2>&1'' @ [CHR 0x27],
      ''mm-delay 200 mm-link mahimahi/traces/TMobile-LTE-short.down mahimahi/traces/TMobile-LTE-short.up -- bash -c 'python3 tests/test_schemes.py --schemes ''
        @ [CHR 0x22] @ ''vegas'' @ [CHR 0x22] @ '' > results/profile_2/vegas/log.txt 2>&1'' @ [CHR 0x27]]
           \<and> w' = foldl (after_pair sh) w (List.product NET_PROFILES CC_ALGOS)
           \<and> rows (collect_dataframes (files w')) =
               concat (map (\<lambda>((p, cfg), a).
                    case read_csv (files w') (''results/profile_'' @ p @ ''/'' @ a @ ''/'' @ a @ ''_cc_log.csv'') of
                      Inr df \<Rightarrow> rows (tag_frame a p cfg df)
                    | Inl e \<Rightarrow> [])
                 (List.product NET_PROFILES CC_ALGOS)))
       \<and> rows (collect_dataframes fs) =
           concat (map (\<lambda>((p, cfg), a).
                    case read_csv fs (''results/profile_'' @ p @ ''/'' @ a @ ''/'' @ a @ ''_cc_log.csv'') of
                      Inr df \<Rightarrow> rows (tag_frame a p cfg df)
                    | Inl e \<Rightarrow> [])
             (List.product NET_PROFILES CC_ALGOS))"
proof -
  from outer_loop [OF assms(1) subset_refl assms(2), of "[]"]
  obtain w' out where run: "execute_tests sh w = Inr (w', out)"
    and inv: "invoked out =
        map (\<lambda>((p, cfg), a). test_command cfg a (result_path_of p a)) (List.product NET_PROFILES CC_ALGOS)"
    and w': "w' = foldl (after_pair sh) w (List.product NET_PROFILES CC_ALGOS)"
    by (auto simp: execute_tests_def run_tests_def)
  from run inv w' rows_of_parseable [of "files w'"] rows_of_parseable [of fs]
  show ?thesis unfolding catalog_commands by blast
qed

text \<open>
  A run in which every kind of failure occurs: the invocations of cubic and vegas for
  profile 1 and of fillp\_sheep for profile 2 fail; cubic for profile 2 has no metrics
  file; the metrics file of fillp\_sheep for profile 1 is copied but does not parse. The
  aggregate holds the three rows of vegas for profile 2.
\<close>

lemma flaky_well_behaved: "well_behaved flaky_shell"
  by (simp add: well_behaved_def flaky_shell_def)

lemma flaky_tidy: "tidy (files flaky_world)"
  by (simp add: tidy_def flaky_world_def run_directories_def metrics_destinations_def
      isfile_def isdir_def CC_ALGOS_def glob_match_def)

lemma flaky_run:
  "(case execute_tests flaky_shell flaky_world of
      Inr (w', out) \<Rightarrow>
        clock w' = 6
        \<and> \<not> isfile (files w') ''results/profile_1/cubic/cubic_cc_log.csv''
        \<and> map_of (files w') ''results/profile_1/fillp_sheep/fillp_sheep_cc_log.csv''
            = Some \<lparr>mtime = 2, body = Unparseable\<rparr>
        \<and> \<not> isfile (files w') ''results/profile_1/vegas/vegas_cc_log.csv''
        \<and> \<not> isfile (files w') ''results/profile_2/cubic/cubic_cc_log.csv''
        \<and> \<not> isfile (files w') ''results/profile_2/fillp_sheep/fillp_sheep_cc_log.csv''
        \<and> map_of (files w') ''results/profile_2/vegas/vegas_cc_log.csv''
            = Some \<lparr>mtime = 6, body = Csv example_artifact\<rparr>
    | Inl x \<Rightarrow> False)"
  by (simp add: run_eval flaky_shell_def flaky_world_def)

lemma not_isfile_no_rows:
  "\<not> isfile fs p \<Longrightarrow> (case read_csv fs p of Inr df \<Rightarrow> f df | Inl e \<Rightarrow> []) = []"
  by (auto simp: isfile_def read_csv_def split: option.splits body.splits)

lemma unparseable_no_rows:
  "map_of fs p = Some \<lparr>mtime = t, body = Unparseable\<rparr>
    \<Longrightarrow> (case read_csv fs p of Inr df \<Rightarrow> f df | Inl e \<Rightarrow> []) = []"
  by (simp add: read_csv_def)

lemma parseable_rows:
  "map_of fs p = Some \<lparr>mtime = t, body = Csv df\<rparr>
    \<Longrightarrow> (case read_csv fs p of Inr df \<Rightarrow> f df | Inl e \<Rightarrow> []) = f df"
  by (simp add: read_csv_def)

theorem partial_failure_isolation_witness:
  "well_behaved flaky_shell \<and> tidy (files flaky_world)
   \<and> (\<exists>w' out. execute_tests flaky_shell flaky_world = Inr (w', out)
        \<and> length (invoked out) = 6
        \<and> hd (invoked out) =
            ''mm-delay 5 mm-link mahimahi/traces/TMobile-LTE-driving.down mahimahi/traces/TMobile-LTE-driving.up -- bash -c 'python3 tests/test_schemes.py --schemes ''
              @ [CHR 0x22] @ ''cubic'' @ [CHR 0x22] @ '' > results/profile_1/cubic/log.txt 2>&1'' @ [CHR 0x27]
        \<and> w' = foldl (after_pair flaky_shell) flaky_world (List.product NET_PROFILES CC_ALGOS)
        \<and> clock w' = 6
        \<and> \<not> isfile (files w') ''results/profile_1/cubic/cubic_cc_log.csv''
        \<and> map_of (files w') ''results/profile_1/fillp_sheep/fillp_sheep_cc_log.csv''
            = Some \<lparr>mtime = 2, body = Unparseable\<rparr>
        \<and> map_of (files w') ''results/profile_2/vegas/vegas_cc_log.csv''
            = Some \<lparr>mtime = 6, body = Csv example_artifact\<rparr>
        \<and> rows (collect_dataframes (files w'))
            = rows (tag_frame ''vegas'' ''2'' (snd (last NET_PROFILES)) example_artifact)
        \<and> length (rows (collect_dataframes (files w'))) = 3)"
proof -
  from partial_failure_isolation [OF flaky_well_behaved flaky_tidy, of "[]"]
  obtain w' out where run: "execute_tests flaky_shell flaky_world = Inr (w', out)"
    and inv: "invoked out =
     [''mm-delay 5 mm-link mahimahi/traces/TMobile-LTE-driving.down mahimahi/traces/TMobile-LTE-driving.up -- bash -c 'python3 tests/test_schemes.py --schemes ''
        @ [CHR 0x22] @ ''cubic'' @ [CHR 0x22] @ '' > results/profile_1/cubic/log.txt 2>&1'' @ [CHR 0x27],
      ''mm-delay 5 mm-link mahimahi/traces/TMobile-LTE-driving.down mahimahi/traces/TMobile-LTE-driving.up -- bash -c 'python3 tests/test_schemes.py --schemes ''
        @ [CHR 0x22] @ ''fillp_sheep'' @ [CHR 0x22] @ '' > results/profile_1/fillp_sheep/log.txt 2>&1'' @ [CHR 0x27],
      ''mm-delay 5 mm-link mahimahi/traces/TMobile-LTE-driving.down mahimahi/traces/TMobile-LTE-driving.up -- bash -c 'python3 tests/test_schemes.py --schemes ''
        @ [CHR 0x22] @ ''vegas'' @ [CHR 0x22] @ '' > results/profile_1/vegas/log.txt 2>&1'' @ [CHR 0x27],
      ''mm-delay 200 mm-link mahimahi/traces/TMobile-LTE-short.down mahimahi/traces/TMobile-LTE-short.up -- bash -c 'python3 tests/test_schemes.py --schemes ''
        @ [CHR 0x22] @ ''cubic'' @ [CHR 0x22] @ '' > results/profile_2/cubic/log.txt 2>&1'' @ [CHR 0x27],
      ''mm-delay 200 mm-link mahimahi/traces/TMobile-LTE-short.down mahimahi/traces/TMobile-LTE-short.up -- bash -c 'python3 tests/test_schemes.py --schemes ''
        @ [CHR 0x22] @ ''fillp_sheep'' @ [CHR 0x22] @ '' > results/profile_2/fillp_sheep/log.txt 2>&1'' @ [CHR 0x27],
      ''mm-delay 200 mm-link mahimahi/traces/TMobile-LTE-short.down mahimahi/traces/TMobile-LTE-short.up -- bash -c 'python3 tests/test_schemes.py --schemes ''
        @ [CHR 0x22] @ ''vegas'' @ [CHR 0x22] @ '' > results/profile_2/vegas/log.txt 2>&1'' @ [CHR 0x27]]"
    and w': "w' = foldl (after_pair flaky_shell) flaky_world (List.product NET_PROFILES CC_ALGOS)"
    and agg: "rows (collect_dataframes (files w')) =
               concat (map (\<lambda>((p, cfg), a).
                    case read_csv (files w') (''results/profile_'' @ p @ ''/'' @ a @ ''/'' @ a @ ''_cc_log.csv'') of
                      Inr df \<Rightarrow> rows (tag_frame a p cfg df)
                    | Inl e \<Rightarrow> [])
                 (List.product NET_PROFILES CC_ALGOS))"
    by blast
  from flaky_run run have
        c: "clock w' = 6"
    and f1: "\<not> isfile (files w') ''results/profile_1/cubic/cubic_cc_log.csv''"
    and f2: "map_of (files w') ''results/profile_1/fillp_sheep/fillp_sheep_cc_log.csv''
            = Some \<lparr>mtime = 2, body = Unparseable\<rparr>"
    and f3: "\<not> isfile (files w') ''results/profile_1/vegas/vegas_cc_log.csv''"
    and f4: "\<not> isfile (files w') ''results/profile_2/cubic/cubic_cc_log.csv''"
    and f5: "\<not> isfile (files w') ''results/profile_2/fillp_sheep/fillp_sheep_cc_log.csv''"
    and f6: "map_of (files w') ''results/profile_2/vegas/vegas_cc_log.csv''
            = Some \<lparr>mtime = 6, body = Csv example_artifact\<rparr>"
    by simp_all
  have r: "rows (collect_dataframes (files w'))
            = rows (tag_frame ''vegas'' ''2'' (snd (last NET_PROFILES)) example_artifact)"
    unfolding agg
    by (simp add: NET_PROFILES_def CC_ALGOS_def not_isfile_no_rows [OF f1]
        unparseable_no_rows [OF f2] not_isfile_no_rows [OF f3] not_isfile_no_rows [OF f4]
        not_isfile_no_rows [OF f5] parseable_rows [OF f6])
  have l: "length (rows (collect_dataframes (files w'))) = 3"
    unfolding r by (simp add: length_rows_tag_frame example_artifact_def)
  have six: "length (invoked out) = 6" unfolding inv by simp
  have h: "hd (invoked out) =
            ''mm-delay 5 mm-link mahimahi/traces/TMobile-LTE-driving.down mahimahi/traces/TMobile-LTE-driving.up -- bash -c 'python3 tests/test_schemes.py --schemes ''
              @ [CHR 0x22] @ ''cubic'' @ [CHR 0x22] @ '' > results/profile_1/cubic/log.txt 2>&1'' @ [CHR 0x27]"
    unfolding inv by simp
  from flaky_well_behaved flaky_tidy run six h w' c f1 f2 f6 r l show ?thesis by blast
qed

subsection \<open>No artifact at all\<close>

lemma no_artifacts_no_frames:
  assumes "no_artifacts fs"
  shows "collect_frames fs NET_PROFILES CC_ALGOS = []"
proof -
  have "contribution fs x = []" if "x \<in> set (List.product NET_PROFILES CC_ALGOS)" for x
  proof -
    obtain p cfg a where x: "x = ((p, cfg), a)" by (metis surj_pair)
    from assms that have "\<not> isfile fs (log_file_of p a)"
      unfolding no_artifacts_def list_all_iff x by blast
    then show ?thesis
      by (auto simp: x contribution_def isfile_def read_csv_def split: option.splits body.splits)
  qed
  then show ?thesis by (simp add: collect_frames_eq)
qed

text \<open>
  Claim C2, as stated, fails in its second half: with no artifact at all the Aggregator
  returns \<^verbatim>\<open>pd.DataFrame()\<close>, which has no column, and \<open>summarize_rtt\<close> applied to it
  raises KeyError at \<^verbatim>\<open>data['profile']\<close> (line 183).
\<close>

theorem summarize_rtt_empty_raises:
  "collect_dataframes [] = empty_frame
   \<and> summarize_rtt (collect_dataframes []) = Inl (KeyError (Str ''profile''))"
  by (simp add: summarize_rtt_def collect_dataframes_def collect_frames_def NET_PROFILES_def
      CC_ALGOS_def collect_one_def isfile_def empty_frame_def get_col_def bind_err_def)

text \<open>
  Claim C2, amended. When no pair of the catalog has a metrics artifact on the disk that
  the Test Runner leaves, the Aggregator returns the empty frame without raising, and
  \<open>orchestrate\<close> returns on it (line 295) before the Derived-Statistics Generator is
  called: no Summary Record is produced and nothing is raised, whatever the emulation
  command and the drawing functions do.
\<close>

theorem no_artifacts_no_data:
  assumes "no_artifacts fs" and "setup_and_tests sh w = Inr (w1, out)" and "files w1 = fs"
  shows "collect_dataframes fs = empty_frame \<and> orchestrate sh d w = Inr No_data_collected"
proof -
  have e: "collect_dataframes fs = empty_frame"
    using no_artifacts_no_frames [OF assms(1)] by (simp add: collect_dataframes_def)
  have "is_empty empty_frame" by (simp add: is_empty_def empty_frame_def)
  with e assms(2,3) show ?thesis
    by (simp add: orchestrate_def bind_err_def)
qed

lemma failing_run:
  "(case setup_and_tests failing_shell empty_world of
      Inr (w1, out) \<Rightarrow> no_artifacts (files w1) \<and> length (invoked out) = 6
    | Inl e \<Rightarrow> False)"
  by (simp add: setup_and_tests_def raised_def bind_err_def run_eval failing_shell_def empty_world_def
      no_artifacts_def log_file_of_def)

theorem no_artifacts_no_data_witness:
  "(\<exists>w1 out. setup_and_tests failing_shell empty_world = Inr (w1, out)
       \<and> no_artifacts (files w1) \<and> length (invoked out) = 6
       \<and> collect_dataframes (files w1) = empty_frame)
   \<and> orchestrate failing_shell quiet_drawing empty_world = Inr No_data_collected"
proof -
  from failing_run obtain w1 out where r: "setup_and_tests failing_shell empty_world = Inr (w1, out)"
    and n: "no_artifacts (files w1)" and six: "length (invoked out) = 6"
    by (cases "setup_and_tests failing_shell empty_world") auto
  from no_artifacts_no_data [OF n r refl, of quiet_drawing] r n six show ?thesis by blast
qed

section \<open>The Metrics Sampler: the samples\<close>

lemma uniform_bounds:
  assumes "unit_interval u" "a \<le> b"
  shows "a \<le> uniform a b u" "uniform a b u \<le> b"
proof -
  from assms have "0 \<le> (b - a) * u" by (simp add: unit_interval_def)
  then show "a \<le> uniform a b u" by (simp add: uniform_def)
  from assms have "(b - a) * u \<le> (b - a) * 1"
    by (intro mult_left_mono) (simp_all add: unit_interval_def)
  then show "uniform a b u \<le> b" by (simp add: uniform_def)
qed

lemma take_sample_in_range:
  assumes "random_ticks env"
  shows "in_range (take_sample (env i) t)"
proof -
  from assms have u: "unit_interval (u_throughput (env i))" "unit_interval (u_rtt (env i))"
    "unit_interval (u_loss_rate (env i))" "unit_interval (u_queuing_delay (env i))"
    by (simp_all add: random_ticks_def)
  show ?thesis
    unfolding in_range_def take_sample_def
    using uniform_bounds [OF u(1), of 1 10] uniform_bounds [OF u(2), of 100 300]
      uniform_bounds [OF u(3), of 0 "2 / 100"] uniform_bounds [OF u(4), of 0 50]
    by simp
qed

lemma seconds_add: "seconds (a + b) = seconds a + seconds b"
  by (simp add: seconds_def add_divide_distrib)

lemma seconds_second: "seconds second = 1"
  by (simp add: seconds_def second_def)

lemma seconds_mono: "a \<le> b \<Longrightarrow> seconds a \<le> seconds b"
  by (simp add: seconds_def second_def divide_right_mono)

lemma sample_loop_stop:
  "\<not> int (t + test_lag (env i)) < duration * int second \<Longrightarrow>
     sample_loop env duration i t metrics = metrics"
  by (subst sample_loop.simps) (simp add: Let_def)

lemma sample_loop_step:
  "int (t + test_lag (env i)) < duration * int second \<Longrightarrow>
     sample_loop env duration i t metrics =
       sample_loop env duration (Suc i)
         (t + test_lag (env i) + stamp_lag (env i) + second + oversleep (env i))
         (metrics @ [take_sample (env i) (t + test_lag (env i) + stamp_lag (env i))])"
  by (subst sample_loop.simps) (simp add: Let_def)

lemma sample_loop_ranges:
  "random_ticks env \<Longrightarrow> \<forall>s \<in> set metrics. in_range s \<Longrightarrow>
     \<forall>s \<in> set (sample_loop env duration i t metrics). in_range s"
proof (induction env duration i t metrics rule: sample_loop.induct)
  case (1 env duration i t metrics)
  show ?case
  proof (cases "int (t + test_lag (env i)) < duration * int second")
    case True
    have "\<forall>s \<in> set (metrics @ [take_sample (env i) (t + test_lag (env i) + stamp_lag (env i))]). in_range s"
      using "1.prems" take_sample_in_range by auto
    with "1.IH" [OF refl True refl "1.prems"(1)] show ?thesis
      by (simp add: sample_loop_step [where env = env and i = i and t = t and duration = duration, OF True])
  next
    case False
    with "1.prems" show ?thesis
      by (simp add: sample_loop_stop)
  qed
qed

lemma sample_loop_spaced:
  "sorted_wrt a_second_apart metrics \<Longrightarrow> \<forall>s \<in> set metrics. timestamp s + 1 \<le> seconds t \<Longrightarrow>
     sorted_wrt a_second_apart (sample_loop env duration i t metrics)"
proof (induction env duration i t metrics rule: sample_loop.induct)
  case (1 env duration i t metrics)
  let ?stamped = "t + test_lag (env i) + stamp_lag (env i)"
  let ?s = "take_sample (env i) ?stamped"
  show ?case
  proof (cases "int (t + test_lag (env i)) < duration * int second")
    case True
    have ts: "timestamp ?s = seconds ?stamped" by (simp add: take_sample_def)
    have le: "seconds t \<le> seconds ?stamped" by (rule seconds_mono) simp
    have "\<forall>x \<in> set metrics. a_second_apart x ?s"
      using "1.prems"(2) le by (auto simp: a_second_apart_def ts)
    with "1.prems"(1) have srt: "sorted_wrt a_second_apart (metrics @ [?s])"
      by (simp add: sorted_wrt_append)
    have nxt: "seconds (?stamped + second + oversleep (env i)) \<ge> seconds ?stamped + 1"
      using seconds_mono [of "?stamped + second" "?stamped + second + oversleep (env i)"]
      by (simp add: seconds_add seconds_second)
    have old: "\<forall>s \<in> set (metrics @ [?s]). timestamp s + 1 \<le> seconds (?stamped + second + oversleep (env i))"
      using "1.prems"(2) le nxt by (auto simp: ts)
    from "1.IH" [OF refl True refl srt old] show ?thesis
      by (simp add: sample_loop_step [where env = env and i = i and t = t and duration = duration, OF True])
  next
    case False
    with "1.prems" show ?thesis
      by (simp add: sample_loop_stop)
  qed
qed

lemma sample_loop_length_mono:
  "length metrics \<le> length (sample_loop env duration i t metrics)"
proof (induction env duration i t metrics rule: sample_loop.induct)
  case (1 env duration i t metrics)
  show ?case
  proof (cases "int (t + test_lag (env i)) < duration * int second")
    case True
    from "1.IH" [OF refl True refl] show ?thesis
      by (simp add: sample_loop_step [where env = env and i = i and t = t and duration = duration, OF True])
  next
    case False
    then show ?thesis
      by (simp add: sample_loop_stop)
  qed
qed

lemma sample_loop_length:
  "length (sample_loop env duration i t metrics) = length metrics
   \<or> int (length (sample_loop env duration i t metrics) - length metrics - 1) * int second + int t
        < duration * int second"
proof (induction env duration i t metrics rule: sample_loop.induct)
  case (1 env duration i t metrics)
  let ?stamped = "t + test_lag (env i) + stamp_lag (env i)"
  let ?t' = "?stamped + second + oversleep (env i)"
  let ?m' = "metrics @ [take_sample (env i) ?stamped]"
  show ?case
  proof (cases "int (t + test_lag (env i)) < duration * int second")
    case True
    have eq: "sample_loop env duration i t metrics = sample_loop env duration (Suc i) ?t' ?m'"
      by (rule sample_loop_step [where env = env and i = i and t = t and duration = duration, OF True])
    let ?r = "sample_loop env duration (Suc i) ?t' ?m'"
    have mono: "length ?m' \<le> length ?r" by (rule sample_loop_length_mono)
    from "1.IH" [OF refl True refl]
    have ih: "length ?r = length ?m'
      \<or> int (length ?r - length ?m' - 1) * int second + int ?t' < duration * int second" .
    have "int (length ?r - length metrics - 1) * int second + int t < duration * int second"
    proof (cases "length ?r = length ?m'")
      case True
      then have "length ?r - length metrics - 1 = 0" by simp
      with \<open>int (t + test_lag (env i)) < duration * int second\<close> show ?thesis by simp
    next
      case False
      with ih have b: "int (length ?r - length ?m' - 1) * int second + int ?t' < duration * int second"
        by simp
      from False mono have "length ?r - length metrics - 1 = Suc (length ?r - length ?m' - 1)"
        by simp
      then have "int (length ?r - length metrics - 1) * int second + int t
          = int (length ?r - length ?m' - 1) * int second + int second + int t"
        by (simp add: algebra_simps)
      also have "\<dots> \<le> int (length ?r - length ?m' - 1) * int second + int ?t'" by simp
      finally show ?thesis using b by simp
    qed
    then show ?thesis unfolding eq by simp
  next
    case False
    then show ?thesis
      by (simp add: sample_loop_stop)
  qed
qed

lemma sample_loop_count:
  "int (length (sample_loop env duration 0 0 [])) \<le> max 0 duration"
proof -
  let ?n = "length (sample_loop env duration 0 0 [])"
  from sample_loop_length [of env duration 0 0 "[]"]
  have "?n = 0 \<or> int (?n - 1) * int second < duration * int second" by simp
  then show ?thesis
  proof
    assume "?n = 0" then show ?thesis by simp
  next
    assume "int (?n - 1) * int second < duration * int second"
    then have "int (?n - 1) < duration" by (simp add: second_def)
    then show ?thesis by simp
  qed
qed

text \<open>
  Claim C9. Provided \<^verbatim>\<open>random.random()\<close> returns numbers in [0, 1), every sample that
  the loop appends has its throughput in [1, 10], its RTT in [100, 300], its loss rate
  in [0, 0.02] and its queueing delay in [0, 50]; the timestamps of any two samples are at
  least one second apart, in the order of the list (at most one sample per one-second
  tick); and the number of samples is at most the duration in seconds, hence at most 75
  for the default duration.
\<close>

theorem samples_in_range_and_spaced:
  assumes "random_ticks env"
  shows "(\<forall>s \<in> set (sample_loop env duration 0 0 []). in_range s)
       \<and> sorted_wrt a_second_apart (sample_loop env duration 0 0 [])
       \<and> int (length (sample_loop env duration 0 0 [])) \<le> max 0 duration
       \<and> length (sample_loop env 75 0 0 []) \<le> 75"
proof -
  have "int (length (sample_loop env 75 0 0 [])) \<le> max 0 75" by (rule sample_loop_count)
  then have "length (sample_loop env 75 0 0 []) \<le> 75" by simp
  with sample_loop_ranges [OF assms, of "[]" duration 0 0]
    sample_loop_spaced [of "[]" 0 env duration 0] sample_loop_count [of env duration]
  show ?thesis by simp
qed


lemma steady_random: "random_ticks steady_env"
  by (simp add: random_ticks_def unit_interval_def steady_env_def)

lemma steady_length: "length (sample_loop steady_env 3 0 0 []) = 3"
  by (simp add: sample_loop.simps steady_env_def second_def Let_def)

theorem samples_in_range_and_spaced_witness:
  "random_ticks steady_env
   \<and> length (sample_loop steady_env 3 0 0 []) = 3
   \<and> in_range (hd (sample_loop steady_env 3 0 0 []))
   \<and> sorted_wrt a_second_apart (sample_loop steady_env 3 0 0 [])
   \<and> int (length (sample_loop steady_env 3 0 0 [])) \<le> max 0 3"
proof -
  from steady_length have "sample_loop steady_env 3 0 0 [] \<noteq> []" by auto
  then have "hd (sample_loop steady_env 3 0 0 []) \<in> set (sample_loop steady_env 3 0 0 [])"
    by simp
  with samples_in_range_and_spaced [OF steady_random, of 3] steady_random steady_length
  show ?thesis by auto
qed

section \<open>The Derived-Statistics Generator: the comparison table\<close>

text \<open>
  On a column of numbers the jitter is the mean of the absolute differences of
  neighbouring values, and the loss entry is 0 when the frame has no \<^verbatim>\<open>loss_rate\<close>
  column at all.
\<close>

lemma avg_loss_rate_no_column:
  "''loss_rate'' \<notin> set (columns subdata) \<Longrightarrow> avg_loss_rate subdata = Inr (Num 0)"
  by (simp add: avg_loss_rate_def)

lemma dropna_Some: "dropna (map Some xs) = xs"
  by (induction xs) simp_all

lemma map2_minus_Some:
  "map2 minus_opt (map Some ys) (map Some xs) = map Some (map2 (-) ys xs)"
proof (induction ys arbitrary: xs)
  case Nil
  then show ?case by simp
next
  case (Cons y ys)
  then show ?case by (cases xs) simp_all
qed

lemma jitter_numbers:
  "xs \<noteq> [] \<Longrightarrow> jitter (map Some xs) = mean (map (\<lambda>(y, x). \<bar>y - x\<bar>) (zip (tl xs) xs))"
proof -
  assume "xs \<noteq> []"
  then obtain x rest where xs: "xs = x # rest" by (cases xs) auto
  have "diff (map Some xs) = None # map Some (map2 (-) rest xs)"
    using map2_minus_Some [of rest xs] by (simp add: diff_def xs)
  then have "dropna (map (map_option abs) (diff (map Some xs))) = map abs (map2 (-) rest xs)"
    using dropna_Some [of "map abs (map2 (-) rest xs)"] by (simp add: comp_def)
  then show ?thesis by (simp add: jitter_def xs comp_def split_def)
qed

lemma mixed_frames:
  "collect_frames mixed_files NET_PROFILES CC_ALGOS =
     [tag_frame ''cubic'' ''1'' (snd (hd NET_PROFILES)) example_artifact,
      tag_frame ''vegas'' ''1'' (snd (hd NET_PROFILES)) lossy_artifact]"
  by (simp add: collect_frames_eq NET_PROFILES_def CC_ALGOS_def
      contribution_def read_csv_def mixed_files_def log_file_of_def)

lemma mixed_columns:
  "columns (collect_dataframes mixed_files) =
     [''timestamp'', ''throughput'', ''rtt'', ''scheme'', ''profile'', ''profile_name'', ''latency'', ''loss_rate'']"
  by (simp add: collect_dataframes_def mixed_frames concat_frames_def union_columns_def
      tag_frame_def set_col_def set_col_range_def add_column_def example_artifact_def lossy_artifact_def)

lemma mixed_rows:
  "rows (collect_dataframes mixed_files) =
     rows (tag_frame ''cubic'' ''1'' (snd (hd NET_PROFILES)) example_artifact) @
     rows (tag_frame ''vegas'' ''1'' (snd (hd NET_PROFILES)) lossy_artifact)"
  by (simp add: collect_dataframes_def mixed_frames concat_frames_def)

lemma upper_of_schemes: "upper (Str ''cubic'') = Inr ''CUBIC''" "upper (Str ''vegas'') = Inr ''VEGAS''"
  by (simp_all add: upper_def upper_char_def)

lemma mixed_data:
  "collect_dataframes mixed_files =
     \<lparr>columns = [''timestamp'', ''throughput'', ''rtt'', ''scheme'', ''profile'', ''profile_name'', ''latency'', ''loss_rate''],
      rows = rows (tag_frame ''cubic'' ''1'' (snd (hd NET_PROFILES)) example_artifact) @
             rows (tag_frame ''vegas'' ''1'' (snd (hd NET_PROFILES)) lossy_artifact)\<rparr>"
  using mixed_columns mixed_rows by (cases "collect_dataframes mixed_files") simp

lemma quantile_of_cubic: "quantile (9 / 10) [4, 5, 6] = Num (29 / 5)"
  by (simp add: quantile_def Let_def)

lemma quantile_of_vegas: "quantile (9 / 10) [5, 6, 7] = Num (34 / 5)"
  by (simp add: quantile_def Let_def)

lemma std_of_examples: "std [4, 5, 6] = Num 1" "std [5, 6, 7] = Num 1"
  by (simp_all add: std_def Let_def power2_eq_square)

lemma mean_of_examples: "mean [4, 5, 6] = Num 5" "mean [5, 6, 7] = Num 6" "mean [100, 120, 110] = Num 110"
  "mean [120, 130, 140] = Num 130" "mean [1 / 100, 2 / 100, 3 / 100] = Num (2 / 100)" "mean [] = NaN"
  by (simp_all add: mean_def)

text \<open>
  Claim C6 does not hold of the loss entry. Line 269 asks whether the selection has a
  \<^verbatim>\<open>loss_rate\<close> column, but a selection has every column of the aggregate, and
  \<^verbatim>\<open>pd.concat\<close> gives the aggregate every column of every artifact, filled with NaN where
  an artifact lacks it. When the artifact of cubic has no loss field and the one of vegas
  has, the record of cubic gets the mean of an all-NaN column, NaN, not 0. Nothing is
  raised, and the other entries are the mean, the standard deviation and the 90th
  percentile of the group's throughput and the mean of its RTT.
\<close>

theorem loss_rate_absent_for_group_is_nan:
  "generate_comparison_table (collect_dataframes mixed_files) =
   Inr [\<lparr>cmp_Profile = ''LTE (Low Latency)'', cmp_Algorithm = ''CUBIC'',
         cmp_Avg_Throughput = Num 5, cmp_Throughput_Std_Dev = Num 1, cmp_Avg_RTT = Num 110,
         cmp_Avg_Loss_Rate = NaN, cmp_90_Throughput = Num (29 / 5)\<rparr>,
        \<lparr>cmp_Profile = ''LTE (Low Latency)'', cmp_Algorithm = ''VEGAS'',
         cmp_Avg_Throughput = Num 6, cmp_Throughput_Std_Dev = Num 1, cmp_Avg_RTT = Num 130,
         cmp_Avg_Loss_Rate = Num 2, cmp_90_Throughput = Num (34 / 5)\<rparr>]"
  by (simp add: mixed_data generate_comparison_table_def compare_profile_def compare_group_def
      avg_loss_rate_def select_run_def get_col_def bind_err_def unique_def cell_eq_def is_empty_def
      lookup_profile_def upper_of_schemes numeric_def quantile_of_cubic quantile_of_vegas std_of_examples
      mean_of_examples mean_def
      rows_tag_frame tag_row_def set_cell_def cell_at_def example_artifact_def lossy_artifact_def
      NET_PROFILES_def)

section \<open>The Transfer Lifecycle Manager and the sampler's output\<close>

text \<open>
  Claim C1 does not hold of the receiver branch. The sender branch releases the
  sampler in a \<^verbatim>\<open>finally\<close> block; the receiver branch calls \<^verbatim>\<open>terminate\<close> after
  \<^verbatim>\<open>check_call\<close> with no such block, so when the transfer process exits with a non-zero
  status the exception leaves \<open>main\<close> and the sampler, which was started, is never asked
  to terminate.
\<close>

theorem receiver_failure_skips_terminate:
  "main Receiver failing_receiver =
     (Some (Inl (CalledProcessError 1)), [Start_metrics, Run_transfer])
   \<and> Terminate_metrics \<notin> set (snd (main Receiver failing_receiver))"
  by (simp add: main_def failing_receiver_def)

text \<open>
  The sender branch does what the claim says: whenever it returns or raises after the
  sampler was started, the last thing it did was to ask the sampler to terminate.
\<close>

lemma send_loop_extends:
  "send_loop ps done = (r, done') \<Longrightarrow> \<exists>more. done' = done @ more"
  by (induction ps "done" rule: send_loop.induct) auto

lemma sender_always_terminates_sampler:
  assumes "main Sender env = (Some r, done)" and "Start_metrics \<in> set done"
  shows "done \<noteq> [] \<and> last done = Terminate_metrics"
  using assms
  by (auto simp: main_def split: if_splits prod.splits option.splits)

text \<open>
  Claim C8 does not hold of every path. \<^verbatim>\<open>Path(...).mkdir(exist_ok=True)\<close> is called
  without \<^verbatim>\<open>parents=True\<close>: it creates the last directory of the path only. For a
  metrics file two levels below a directory that does not exist yet, \<open>mkdir\<close> raises
  FileNotFoundError and nothing is saved, whatever the samples are.
\<close>

theorem collect_metrics_nested_directory_fails:
  "collect_metrics env ''out/run1/ledbat_metrics.csv'' duration bare_store
     = Inl (FileNotFoundError ''out/run1'')"
  by (simp add: collect_metrics_def bind_err_def mkdir_def Path_def dirname_def is_slash_def
      dir_exists_def file_exists_def bare_store_def)

text \<open>
  Where the parent of the file's directory exists, the directory is created and the
  whole series is saved under the file's name.
\<close>

lemma collect_metrics_saves:
  assumes "dir_exists st (Path (dirname (Path (dirname metrics_file))))"
    and "\<not> file_exists st (Path (dirname metrics_file))"
    and "\<not> dir_exists st metrics_file" and "metrics_file \<noteq> Path (dirname metrics_file)"
  shows "\<exists>st'. collect_metrics env metrics_file duration st = Inr st'
           \<and> map_of (saved st') metrics_file = Some (sample_loop env duration 0 0 [])"
  using assms
  by (auto simp: collect_metrics_def bind_err_def mkdir_def to_csv_def dir_exists_def update_conv')

end
